theory Spec2Isabelle
  imports Main "HOL-Library.Sublist"
begin

section \<open>JSON documents and the data flow of a state\<close>

text \<open>
  The workflow threads one JSON document through its states. An object is an association
  list, so that the order of its fields is kept as written.
\<close>

datatype json = JNull | JBool bool | JNum int | JStr string
  | JArr "json list" | JObj "(string \<times> json) list"

fun field :: "string \<Rightarrow> json \<Rightarrow> json option" where
  "field k (JObj kvs) = map_of kvs k"
| "field k _ = None"

fun get_path :: "string list \<Rightarrow> json \<Rightarrow> json option" where
  "get_path [] d = Some d"
| "get_path (k # ks) d = (case field k d of None \<Rightarrow> None | Some v \<Rightarrow> get_path ks v)"

text \<open>Writing a field replaces the first binding of the key, or appends a new binding.\<close>

fun put :: "string \<Rightarrow> json \<Rightarrow> (string \<times> json) list \<Rightarrow> (string \<times> json) list" where
  "put k v [] = [(k, v)]"
| "put k v ((k', v') # kvs) = (if k' = k then (k, v) # kvs else (k', v') # put k v kvs)"

fun set_path :: "string list \<Rightarrow> json \<Rightarrow> json \<Rightarrow> json option" where
  "set_path [] v d = Some v"
| "set_path (k # ks) v (JObj kvs) =
     (case set_path ks v (case map_of kvs k of None \<Rightarrow> JObj [] | Some c \<Rightarrow> c) of
        None \<Rightarrow> None
      | Some c' \<Rightarrow> Some (JObj (put k c' kvs)))"
| "set_path (k # ks) v _ = None"

text \<open>
  Reference paths are kept as the strings of the source: \<open>$.a.b\<close> reads the state input,
  \<open>$$.a.b\<close> reads the context object (the current item of a Map).
\<close>

fun split_on :: "char \<Rightarrow> string \<Rightarrow> string list" where
  "split_on c [] = [[]]"
| "split_on c (x # xs) =
     (if x = c then [] # split_on c xs
      else (case split_on c xs of [] \<Rightarrow> [[x]] | w # ws \<Rightarrow> (x # w) # ws))"

datatype root = Input | Context

definition parse_path :: "string \<Rightarrow> (root \<times> string list) option" where
  "parse_path p =
     (if p = ''$'' then Some (Input, [])
      else if p = ''$$'' then Some (Context, [])
      else if take 3 p = ''$$.'' then Some (Context, split_on CHR ''.'' (drop 3 p))
      else if take 2 p = ''$.'' then Some (Input, split_on CHR ''.'' (drop 2 p))
      else None)"

text \<open>
  In a parameter template a key that ends in \<open>.$\<close> holds a path: the field is replaced by
  the value found there, under the key without the suffix. Every other field is literal;
  nested objects are templates again. (The only array of the source's templates holds a
  plain string, so array elements are taken literally.)
\<close>

definition is_path_key :: "string \<Rightarrow> bool" where
  "is_path_key k = (2 \<le> length k \<and> drop (length k - 2) k = ''.$'')"

definition strip_key :: "string \<Rightarrow> string" where
  "strip_key k = take (length k - 2) k"

definition deref :: "json \<Rightarrow> json \<Rightarrow> json \<Rightarrow> json option" where
  "deref ctx inp v =
     (case v of
        JStr p \<Rightarrow>
          (case parse_path p of
             None \<Rightarrow> None
           | Some (Input, ks) \<Rightarrow> get_path ks inp
           | Some (Context, ks) \<Rightarrow> get_path ks ctx)
      | _ \<Rightarrow> None)"

fun resolve :: "json \<Rightarrow> json \<Rightarrow> json \<Rightarrow> json option"
  and resolve_fields ::
    "json \<Rightarrow> json \<Rightarrow> (string \<times> json) list \<Rightarrow> (string \<times> json) list option"
where
  "resolve ctx inp (JObj kvs) = map_option JObj (resolve_fields ctx inp kvs)"
| "resolve ctx inp t = Some t"
| "resolve_fields ctx inp [] = Some []"
| "resolve_fields ctx inp ((k, v) # kvs) =
     (case (if is_path_key k then deref ctx inp v else resolve ctx inp v) of
        None \<Rightarrow> None
      | Some v' \<Rightarrow>
          (case resolve_fields ctx inp kvs of
             None \<Rightarrow> None
           | Some r \<Rightarrow> Some ((if is_path_key k then strip_key k else k, v') # r)))"

text \<open>
  The result path of a state: absent, the result replaces the input; the special value
  \<open>DISCARD\<close> drops the result and passes the input on; a path \<open>$.a\<close> writes the result
  into the input at that place.
\<close>

definition apply_result_path :: "string option \<Rightarrow> json \<Rightarrow> json \<Rightarrow> json option" where
  "apply_result_path rp inp res =
     (case rp of
        None \<Rightarrow> Some res
      | Some p \<Rightarrow>
          if p = ''DISCARD'' then Some inp
          else (case parse_path p of
                  Some (Input, ks) \<Rightarrow> set_path ks res inp
                | _ \<Rightarrow> None))"

section \<open>The constructs the task is built from\<close>

datatype Effect = ALLOW | DENY

record PolicyStatement =
  effect :: Effect
  resources :: "string list"
  actions :: "string list"

record Role =
  roleName :: string
  policy :: "PolicyStatement list"

definition addToPrincipalPolicy :: "Role \<Rightarrow> PolicyStatement \<Rightarrow> Role" where
  "addToPrincipalPolicy r s = r\<lparr>policy := policy r @ [s]\<rparr>"

record FunctionProps =
  fn_role :: Role
  fn_code :: string
  fn_handler :: string

text \<open>
  \<open>CreateStackTask\<close> is the definition of the sub-workflow that deploys one stack. Its file
  is not part of the sources at hand; only the properties it is built with are recorded,
  and running it is left to the sub-workflow runner of the environment.
\<close>

record CreateStackTask =
  cst_id :: string
  cst_lambdaCode :: string
  cst_role :: Role
  cst_suffix :: "string option"

record StateMachine =
  stateMachineName :: string
  sm_definition :: CreateStackTask

datatype ServiceIntegrationPattern = FIRE_AND_FORGET | SYNC | WAIT_FOR_TASK_TOKEN

datatype task =
    InvokeFunction FunctionProps json
  | StartExecution StateMachine ServiceIntegrationPattern json

datatype state_def =
    sfn_Task task "string option"
  | sfn_Map "string option" "string option" "nat option" "json option" "string option"

record state =
  def :: state_def
  nextState :: "string option"

type_synonym store = "string \<rightharpoonup> state"

datatype construct_error =
    DuplicateId string
  | UnknownState string
  | AlreadyHasNext string
  | CannotAddToChain
  | NotAMap string

definition sum_bind :: "'e + 'a \<Rightarrow> ('a \<Rightarrow> 'e + 'b) \<Rightarrow> 'e + 'b" where
  "sum_bind m f = (case m of Inl e \<Rightarrow> Inl e | Inr x \<Rightarrow> f x)"

definition new_state :: "store \<Rightarrow> string \<Rightarrow> state_def \<Rightarrow> construct_error + store" where
  "new_state st sid d =
     (case st sid of
        Some _ \<Rightarrow> Inl (DuplicateId sid)
      | None \<Rightarrow> Inr (st(sid \<mapsto> \<lparr>def = d, nextState = None\<rparr>)))"

text \<open>\<open>map.iterator(state)\<close>: the Map runs the graph that starts at the given state.\<close>

definition iterator :: "store \<Rightarrow> string \<Rightarrow> string \<Rightarrow> construct_error + store" where
  "iterator st m it =
     (case st m of
        None \<Rightarrow> Inl (UnknownState m)
      | Some s \<Rightarrow>
          (case def s of
             sfn_Map ip rp mc ps _ \<Rightarrow> Inr (st(m \<mapsto> s\<lparr>def := sfn_Map ip rp mc ps (Some it)\<rparr>))
           | sfn_Task _ _ \<Rightarrow> Inl (NotAMap m)))"

record chain =
  startState :: string
  endStates :: "string list"

text \<open>A Task or a Map is a chain by itself: it starts and ends at the one state.\<close>

definition Chain_start :: "string \<Rightarrow> chain" where
  "Chain_start sid = \<lparr>startState = sid, endStates = [sid]\<rparr>"

definition make_next :: "store \<Rightarrow> string \<Rightarrow> string \<Rightarrow> construct_error + store" where
  "make_next st sid nx =
     (case st sid of
        None \<Rightarrow> Inl (UnknownState sid)
      | Some s \<Rightarrow>
          (case nextState s of
             Some _ \<Rightarrow> Inl (AlreadyHasNext sid)
           | None \<Rightarrow> Inr (st(sid \<mapsto> s\<lparr>nextState := Some nx\<rparr>))))"

fun make_next_all :: "store \<Rightarrow> string list \<Rightarrow> string \<Rightarrow> construct_error + store" where
  "make_next_all st [] nx = Inr st"
| "make_next_all st (e # es) nx =
     sum_bind (make_next st e nx) (\<lambda>st'. make_next_all st' es nx)"

definition Chain_next :: "store \<times> chain \<Rightarrow> chain \<Rightarrow> construct_error + store \<times> chain" where
  "Chain_next sc nx =
     (case sc of (st, c) \<Rightarrow>
        if endStates c = [] then Inl CannotAddToChain
        else sum_bind (make_next_all st (endStates c) (startState nx))
               (\<lambda>st'. Inr (st', \<lparr>startState = startState c, endStates = endStates nx\<rparr>)))"

text \<open>
  Modelled from the spec: \<open>CodeTask\<close> (the External Task Invoker of section 4.1) is defined
  outside the sources at hand. It is taken to be one task state that invokes the named
  function synchronously with the given payload template and writes the result at
  the result path; a failed invocation fails the state.
\<close>

definition CodeTask :: "string option \<Rightarrow> json \<Rightarrow> FunctionProps \<Rightarrow> state_def" where
  "CodeTask rp functionPayload functionProps =
     sfn_Task (InvokeFunction functionProps functionPayload) rp"

section \<open>The bootstrap task\<close>

record Props =
  role :: Role
  lambdaCode :: string
  acceleratorPrefix :: string
  s3BucketName :: string
  operationsBootstrapObjectKey :: string
  accountBootstrapObjectKey :: string
  assumeRoleName :: string
  bootStrapStackName :: string
  functionPayload :: "json option"
  waitSeconds :: "int option"

text \<open>The account id of the deploying stack, a value fixed at deployment.\<close>

definition Aws_ACCOUNT_ID :: json where
  "Aws_ACCOUNT_ID = JStr ''${AWS::AccountId}''"

definition logsStatement :: PolicyStatement where
  "logsStatement =
     \<lparr>effect = ALLOW, resources = [''*''],
      actions = [''logs:CreateLogGroup'', ''logs:CreateLogStream'', ''logs:PutLogEvents'']\<rparr>"

text \<open>The role is changed in place, so every later use sees the added statement.\<close>

definition grantedRole :: "Props \<Rightarrow> Role" where
  "grantedRole props = addToPrincipalPolicy (role props) logsStatement"

definition getAccountInfoTask_functionPayload :: json where
  "getAccountInfoTask_functionPayload =
     JObj [(''configRepositoryName.$'', JStr ''$.configRepositoryName''),
           (''configFilePath.$'', JStr ''$.configFilePath''),
           (''configCommitId.$'', JStr ''$.configCommitId''),
           (''accountsTableName.$'', JStr ''$.accountsTableName''),
           (''accountType'', JStr ''central-operations'')]"

definition getAccountInfoTask :: "Props \<Rightarrow> state_def" where
  "getAccountInfoTask props =
     CodeTask (Some ''$.operationsAccount'') getAccountInfoTask_functionPayload
       \<lparr>fn_role = grantedRole props, fn_code = lambdaCode props,
        fn_handler = ''index.getAccountInfo''\<rparr>"

definition createRootBootstrapInRegion_parameters :: "Props \<Rightarrow> json" where
  "createRootBootstrapInRegion_parameters props =
     JObj [(''accountId.$'', JStr ''$.operationsAccount.id''),
           (''organizationId.$'', JStr ''$.operationsAccount.ou''),
           (''region.$'', JStr ''$$.Map.Item.Value''),
           (''acceleratorPrefix'', JStr (acceleratorPrefix props)),
           (''assumeRoleName'', JStr (assumeRoleName props))]"

definition createRootBootstrapInRegion :: "Props \<Rightarrow> state_def" where
  "createRootBootstrapInRegion props =
     sfn_Map (Some ''$.regions'') (Some ''$.bootstrap'') (Some 20)
       (Some (createRootBootstrapInRegion_parameters props)) None"

definition bootstrapMasterStateMachine :: "Props \<Rightarrow> StateMachine" where
  "bootstrapMasterStateMachine props =
     \<lparr>stateMachineName = acceleratorPrefix props @ ''BootstrapOperationsAccount_sm'',
      sm_definition =
        \<lparr>cst_id = ''Bootstrap Operations Acccount Task'', cst_lambdaCode = lambdaCode props,
         cst_role = grantedRole props, cst_suffix = None\<rparr>\<rparr>"

definition bootstrapOpsTask_input :: "Props \<Rightarrow> json" where
  "bootstrapOpsTask_input props =
     JObj [(''stackName'', JStr (bootStrapStackName props)),
           (''stackCapabilities'', JArr [JStr ''CAPABILITY_NAMED_IAM'']),
           (''stackParameters'', JObj [(''OrganizationId.$'', JStr ''$.organizationId'')]),
           (''stackTemplate'',
              JObj [(''s3BucketName'', JStr (s3BucketName props)),
                    (''s3ObjectKey'', JStr (operationsBootstrapObjectKey props))]),
           (''accountId.$'', JStr ''$.accountId''),
           (''assumeRoleName'', JStr (assumeRoleName props)),
           (''region.$'', JStr ''$.region'')]"

definition bootstrapOpsTask :: "Props \<Rightarrow> state_def" where
  "bootstrapOpsTask props =
     sfn_Task
       (StartExecution (bootstrapMasterStateMachine props) SYNC (bootstrapOpsTask_input props))
       (Some ''$.opsBootstrapOutput'')"

definition getBootstrapOutput_functionPayload :: json where
  "getBootstrapOutput_functionPayload =
     JObj [(''stackOutputs.$'', JStr ''$.bootstrap''),
           (''accounts.$'', JStr ''$.accounts''),
           (''operationsAccountId.$'', JStr ''$.operationsAccount.id''),
           (''currentAccountId'', Aws_ACCOUNT_ID)]"

definition getBootstrapOutput :: "Props \<Rightarrow> state_def" where
  "getBootstrapOutput props =
     CodeTask (Some ''$.bootstrap'') getBootstrapOutput_functionPayload
       \<lparr>fn_role = grantedRole props, fn_code = lambdaCode props,
        fn_handler = ''index.getBootstrapOutput''\<rparr>"

definition createBootstrapInAccount_parameters :: "Props \<Rightarrow> json" where
  "createBootstrapInAccount_parameters props =
     JObj [(''accountId.$'', JStr ''$$.Map.Item.Value''),
           (''bootstrapRegions.$'', JStr ''$.bootstrap.outputs''),
           (''acceleratorPrefix'', JStr (acceleratorPrefix props)),
           (''assumeRoleName'', JStr (assumeRoleName props))]"

definition createBootstrapInAccount :: "Props \<Rightarrow> state_def" where
  "createBootstrapInAccount props =
     sfn_Map (Some ''$.bootstrap.accounts'') (Some ''DISCARD'') (Some 10)
       (Some (createBootstrapInAccount_parameters props)) None"

definition createBootstrapInRegion_parameters :: "Props \<Rightarrow> json" where
  "createBootstrapInRegion_parameters props =
     JObj [(''accountId.$'', JStr ''$.accountId''),
           (''bootstrapRegion.$'', JStr ''$$.Map.Item.Value''),
           (''acceleratorPrefix'', JStr (acceleratorPrefix props)),
           (''assumeRoleName'', JStr (assumeRoleName props))]"

definition createBootstrapInRegion :: "Props \<Rightarrow> state_def" where
  "createBootstrapInRegion props =
     sfn_Map (Some ''$.bootstrapRegions'') (Some ''DISCARD'') (Some 16)
       (Some (createBootstrapInRegion_parameters props)) None"

definition bootstrapStateMachine :: "Props \<Rightarrow> StateMachine" where
  "bootstrapStateMachine props =
     \<lparr>stateMachineName = acceleratorPrefix props @ ''BootstrapAccount_sm'',
      sm_definition =
        \<lparr>cst_id = ''Bootstrap Acccount Task'', cst_lambdaCode = lambdaCode props,
         cst_role = grantedRole props, cst_suffix = Some ''Account Stack''\<rparr>\<rparr>"

definition bootstrapTask_input :: "Props \<Rightarrow> json" where
  "bootstrapTask_input props =
     JObj [(''stackName'', JStr (bootStrapStackName props)),
           (''stackCapabilities'', JArr [JStr ''CAPABILITY_NAMED_IAM'']),
           (''stackParameters'',
              JObj [(''BucketName.$'', JStr ''$.bootstrapRegion.bucketDomain''),
                    (''BucketDomainName.$'', JStr ''$.bootstrapRegion.bucketDomain'')]),
           (''stackTemplate'',
              JObj [(''s3BucketName'', JStr (s3BucketName props)),
                    (''s3ObjectKey'', JStr (accountBootstrapObjectKey props))]),
           (''accountId.$'', JStr ''$.accountId''),
           (''assumeRoleName'', JStr (assumeRoleName props)),
           (''region.$'', JStr ''$.bootstrapRegion.region'')]"

definition bootstrapTask :: "Props \<Rightarrow> state_def" where
  "bootstrapTask props =
     sfn_Task
       (StartExecution (bootstrapStateMachine props) SYNC (bootstrapTask_input props))
       (Some ''DISCARD'')"

text \<open>The names under which the states are created.\<close>

definition getAccountInfoTask_id :: string where
  "getAccountInfoTask_id = ''Get Operations Account Info''"

definition createRootBootstrapInRegion_id :: string where
  "createRootBootstrapInRegion_id = ''Bootstrap Operations Account''"

definition bootstrapOpsTask_id :: string where
  "bootstrapOpsTask_id = ''Bootstrap Operations Acccount''"

definition getBootstrapOutput_id :: string where
  "getBootstrapOutput_id = ''Get Bootstrap output''"

definition createBootstrapInAccount_id :: string where
  "createBootstrapInAccount_id = ''Bootstrap Account Map''"

definition createBootstrapInRegion_id :: string where
  "createBootstrapInRegion_id = ''Bootstrap Account Region Map''"

definition bootstrapTask_id :: string where
  "bootstrapTask_id = ''Bootstrap Acccount''"

record fragment =
  states :: store
  frag_startState :: string
  frag_endStates :: "string list"
  frag_role :: Role

text \<open>
  The constructor, statement by statement. \<open>waitSeconds\<close> is read from the properties
  with its default and \<open>functionPayload\<close> is not read at all.
\<close>

definition CDKBootstrapTask :: "Props \<Rightarrow> construct_error + fragment" where
  "CDKBootstrapTask props =
     (let waitSeconds' = (case waitSeconds props of None \<Rightarrow> 10 | Some w \<Rightarrow> w) in
      sum_bind (new_state Map.empty getAccountInfoTask_id (getAccountInfoTask props)) (\<lambda>s1.
      sum_bind (new_state s1 createRootBootstrapInRegion_id (createRootBootstrapInRegion props)) (\<lambda>s2.
      sum_bind (new_state s2 bootstrapOpsTask_id (bootstrapOpsTask props)) (\<lambda>s3.
      sum_bind (iterator s3 createRootBootstrapInRegion_id bootstrapOpsTask_id) (\<lambda>s4.
      sum_bind (new_state s4 getBootstrapOutput_id (getBootstrapOutput props)) (\<lambda>s5.
      sum_bind (new_state s5 createBootstrapInAccount_id (createBootstrapInAccount props)) (\<lambda>s6.
      sum_bind (new_state s6 createBootstrapInRegion_id (createBootstrapInRegion props)) (\<lambda>s7.
      sum_bind (new_state s7 bootstrapTask_id (bootstrapTask props)) (\<lambda>s8.
      sum_bind (iterator s8 createBootstrapInAccount_id createBootstrapInRegion_id) (\<lambda>s9.
      sum_bind (iterator s9 createBootstrapInRegion_id bootstrapTask_id) (\<lambda>s10.
      sum_bind (Chain_next (s10, Chain_start getAccountInfoTask_id) (Chain_start createRootBootstrapInRegion_id)) (\<lambda>c1.
      sum_bind (Chain_next c1 (Chain_start getBootstrapOutput_id)) (\<lambda>c2.
      sum_bind (Chain_next c2 (Chain_start createBootstrapInAccount_id)) (\<lambda>c3.
        Inr \<lparr>states = fst c3, frag_startState = startState (snd c3),
             frag_endStates = endStates (snd c3),
             frag_role = grantedRole props\<rparr>))))))))))))))"

section \<open>Running a state graph\<close>

text \<open>
  The two collaborators of the workflow are parameters of every run: the external task
  invoker (a function name and a payload) and the sub-workflow runner (a state machine name
  and an input). Each returns a result or fails with a detail.
\<close>

record env =
  invoke :: "string \<Rightarrow> json \<Rightarrow> string + json"
  runSync :: "string \<Rightarrow> json \<Rightarrow> string + json"

datatype error =
    InvocationError string
  | ExecutionError string
  | RuntimeError string
  | UndefinedState string
  | NoIterator string
  | Unsupported string
  | OutOfFuel

text \<open>
  What a run does is recorded as a list of events. The first component of an event is the
  place of the state in the nesting of Map items: \<open>[]\<close> at the top level, \<open>[i]\<close> inside
  item \<open>i\<close> of a top-level Map, \<open>[i, j]\<close> inside item \<open>j\<close> of the Map run by that item.
\<close>

datatype event =
    Enter "nat list" string
  | Exit "nat list" string bool
  | Invoked "nat list" string json "string + json"
  | Executed "nat list" string json "string + json"
  | Started "nat list" string json

definition run_task ::
  "env \<Rightarrow> nat list \<Rightarrow> json \<Rightarrow> string \<Rightarrow> task \<Rightarrow> json \<Rightarrow> event list \<times> (error + json)" where
  "run_task env path ctx sid t inp =
     (case t of
        InvokeFunction fp payload \<Rightarrow>
          (case resolve ctx inp payload of
             None \<Rightarrow> ([], Inl (RuntimeError sid))
           | Some x \<Rightarrow>
               (let r = invoke env (fn_handler fp) x
                in ([Invoked path (fn_handler fp) x r],
                    case r of Inl d \<Rightarrow> Inl (InvocationError d) | Inr v \<Rightarrow> Inr v)))
      | StartExecution sm pat input \<Rightarrow>
          (case resolve ctx inp input of
             None \<Rightarrow> ([], Inl (RuntimeError sid))
           | Some x \<Rightarrow>
               (case pat of
                  SYNC \<Rightarrow>
                    (let r = runSync env (stateMachineName sm) x
                     in ([Executed path (stateMachineName sm) x r],
                         case r of Inl d \<Rightarrow> Inl (ExecutionError d) | Inr v \<Rightarrow> Inr v))
                | FIRE_AND_FORGET \<Rightarrow>
                    ([Started path (stateMachineName sm) x],
                     Inr (JObj [(''ExecutionArn'', JStr (stateMachineName sm))]))
                | WAIT_FOR_TASK_TOKEN \<Rightarrow> ([], Inl (Unsupported sid)))))"

definition write_result :: "string \<Rightarrow> string option \<Rightarrow> json \<Rightarrow> json \<Rightarrow> error + json" where
  "write_result sid rp inp res =
     (case apply_result_path rp inp res of
        None \<Rightarrow> Inl (RuntimeError sid)
      | Some out \<Rightarrow> Inr out)"

text \<open>The items of a Map: the array at the items path (the whole input when absent).\<close>

definition items_at :: "string option \<Rightarrow> json \<Rightarrow> json list option" where
  "items_at ip inp =
     (case parse_path (case ip of None \<Rightarrow> ''$'' | Some p \<Rightarrow> p) of
        Some (Input, ks) \<Rightarrow>
          (case get_path ks inp of Some (JArr items) \<Rightarrow> Some items | _ \<Rightarrow> None)
      | _ \<Rightarrow> None)"

definition item_context :: "nat \<Rightarrow> json \<Rightarrow> json" where
  "item_context i item =
     JObj [(''Map'', JObj [(''Item'', JObj [(''Index'', JNum (int i)), (''Value'', item)])])]"

definition item_input :: "json option \<Rightarrow> json \<Rightarrow> json \<Rightarrow> json \<Rightarrow> json option" where
  "item_input ps ctx inp item =
     (case ps of None \<Rightarrow> Some item | Some t \<Rightarrow> resolve ctx inp t)"

text \<open>
  The results of the items of a Map, in the order of the items; a Map with a failed item
  fails. (Which of several failures is reported depends on the schedule; here it is the one
  of the first failed item.)
\<close>

fun collect :: "(error + json) list \<Rightarrow> error + json list" where
  "collect [] = Inr []"
| "collect (r # rs) =
     (case r of
        Inl e \<Rightarrow> Inl e
      | Inr v \<Rightarrow> (case collect rs of Inl e \<Rightarrow> Inl e | Inr vs \<Rightarrow> Inr (v # vs)))"

text \<open>
  One Map state: the body is run once per item, on the item's input (the Map's parameter
  template resolved for that item, or the item itself without a template).
\<close>

definition gather :: "string \<Rightarrow> string option \<Rightarrow> json \<Rightarrow> (error + json) list \<Rightarrow> error + json" where
  "gather sid rp inp rs =
     (case collect rs of
        Inl e \<Rightarrow> Inl e
      | Inr outs \<Rightarrow> write_result sid rp inp (JArr outs))"

definition run_map ::
  "string \<Rightarrow> string option \<Rightarrow> string option \<Rightarrow> json option \<Rightarrow>
   (nat \<Rightarrow> json \<Rightarrow> json \<Rightarrow> event list \<times> (error + json)) \<Rightarrow> json \<Rightarrow>
   event list \<times> (error + json)" where
  "run_map sid ip rp ps body inp =
     (case items_at ip inp of
        None \<Rightarrow> ([], Inl (RuntimeError sid))
      | Some items \<Rightarrow>
          (let rs =
             map (\<lambda>(i, item).
                    case item_input ps (item_context i item) inp item of
                      None \<Rightarrow> ([], Inl (RuntimeError sid))
                    | Some x \<Rightarrow> body i item x)
                 (enumerate 0 items)
           in (concat (map fst rs), gather sid rp inp (map snd rs))))"

definition run_task_state ::
  "env \<Rightarrow> nat list \<Rightarrow> json \<Rightarrow> string \<Rightarrow> task \<Rightarrow> string option \<Rightarrow> json \<Rightarrow>
   event list \<times> (error + json)" where
  "run_task_state env path ctx sid t rp inp =
     (case run_task env path ctx sid t inp of
        (tr, r) \<Rightarrow> (tr, case r of Inl e \<Rightarrow> Inl e | Inr v \<Rightarrow> write_result sid rp inp v))"

text \<open>
  After a state: a failure ends the run; otherwise the output is the input of the next
  state, if there is one.
\<close>

definition then_next ::
  "nat list \<Rightarrow> string \<Rightarrow> (json \<Rightarrow> event list \<times> (error + json)) option \<Rightarrow>
   event list \<times> (error + json) \<Rightarrow> event list \<times> (error + json)" where
  "then_next path sid k r =
     (case r of
        (tr, Inl e) \<Rightarrow> (Enter path sid # tr @ [Exit path sid False], Inl e)
      | (tr, Inr out) \<Rightarrow>
          (case k of
             None \<Rightarrow> (Enter path sid # tr @ [Exit path sid True], Inr out)
           | Some f \<Rightarrow>
               (case f out of
                  (tr2, res2) \<Rightarrow> (Enter path sid # tr @ [Exit path sid True] @ tr2, res2))))"

text \<open>
  A run starts at a state and follows the \<open>next\<close> links until a state has none or a state
  fails. A graph may loop, so the run takes fuel: every state entered (at the top level or
  in a Map item) costs one unit on its branch. \<open>exec_state\<close> is the run of one state alone,
  from its input to its output.
\<close>

fun exec_state ::
  "env \<Rightarrow> store \<Rightarrow> nat \<Rightarrow> nat list \<Rightarrow> json \<Rightarrow> string \<Rightarrow> state \<Rightarrow> json \<Rightarrow>
   event list \<times> (error + json)"
  and exec_chain ::
  "env \<Rightarrow> store \<Rightarrow> nat \<Rightarrow> nat list \<Rightarrow> json \<Rightarrow> string \<Rightarrow> json \<Rightarrow> event list \<times> (error + json)"
where
  "exec_state env st n path ctx sid s inp =
     (case def s of
        sfn_Task t rp \<Rightarrow> run_task_state env path ctx sid t rp inp
      | sfn_Map ip rp mc ps it \<Rightarrow>
          (case it of
             None \<Rightarrow> ([], Inl (NoIterator sid))
           | Some body \<Rightarrow>
               run_map sid ip rp ps
                 (\<lambda>i item x. exec_chain env st n (path @ [i]) (item_context i item) body x)
                 inp))"
| "exec_chain env st 0 path ctx sid inp = ([], Inl OutOfFuel)"
| "exec_chain env st (Suc n) path ctx sid inp =
     (case st sid of
        None \<Rightarrow> ([], Inl (UndefinedState sid))
      | Some s \<Rightarrow>
          then_next path sid
            (case nextState s of
               None \<Rightarrow> None
             | Some nx \<Rightarrow> Some (\<lambda>out. exec_chain env st n path ctx nx out))
            (exec_state env st n path ctx sid s inp))"

text \<open>
  A run of the constructed task: from its start state, at the top level, with an empty
  context object.
\<close>

definition run :: "env \<Rightarrow> fragment \<Rightarrow> nat \<Rightarrow> json \<Rightarrow> event list \<times> (error + json)" where
  "run env f n doc = exec_chain env (states f) n [] (JObj []) (frag_startState f) doc"

text \<open>What a list of events says: the top-level states entered, in order.\<close>

fun entered_top :: "event list \<Rightarrow> string list" where
  "entered_top [] = []"
| "entered_top (Enter p sid # es) = (if p = [] then sid # entered_top es else entered_top es)"
| "entered_top (e # es) = entered_top es"


text \<open>The synchronous runs of a given sub-workflow: place, input and outcome of each.\<close>

fun executed :: "string \<Rightarrow> event list \<Rightarrow> (nat list \<times> json \<times> (string + json)) list" where
  "executed name [] = []"
| "executed name (Executed p m x r # es) =
     (if m = name then (p, x, r) # executed name es else executed name es)"
| "executed name (e # es) = executed name es"

text \<open>The outcomes of all calls to a collaborator.\<close>

fun outcomes :: "event list \<Rightarrow> (string + json) list" where
  "outcomes [] = []"
| "outcomes (Invoked p h x r # es) = r # outcomes es"
| "outcomes (Executed p m x r # es) = r # outcomes es"
| "outcomes (e # es) = outcomes es"

text \<open>The states met by following the \<open>next\<close> links from a state, with fuel.\<close>

fun follow :: "store \<Rightarrow> nat \<Rightarrow> string \<Rightarrow> string list" where
  "follow st 0 sid = []"
| "follow st (Suc n) sid =
     (case st sid of
        None \<Rightarrow> []
      | Some s \<Rightarrow> sid # (case nextState s of None \<Rightarrow> [] | Some nx \<Rightarrow> follow st n nx))"

section \<open>The bounded fan-out executor\<close>

text \<open>
  Modelled from the spec: the bounded fan-out (Map) executor of section 4.3 is the
  execution platform's, not part of the sources at hand; the source only configures it
  (items path, concurrency cap, parameters, result path, body). Following section 4.3, it
  launches one body invocation per item; an item is admitted only while fewer than the cap
  are running; a body may itself be a fan-out with its own cap; the executor returns only
  when every item has reached a terminal state, and then hands the results, in the order
  of the items, to its aggregation. A fan-out with no cap admits without limit.
\<close>

datatype ('a, 'r) job =
    Leaf 'a
  | Fan "nat option" "'r list \<Rightarrow> 'r" "('a, 'r) job list"

datatype ('a, 'r) run =
    Waiting "('a, 'r) job"
  | Active 'a
  | Mapping "nat option" "'r list \<Rightarrow> 'r" "('a, 'r) run list"
  | Finished 'r

fun start :: "('a, 'r) job \<Rightarrow> ('a, 'r) run" where
  "start (Leaf a) = Active a"
| "start (Fan cap agg js) = Mapping cap agg (map Waiting js)"

fun running :: "('a, 'r) run \<Rightarrow> bool" where
  "running (Active a) = True"
| "running (Mapping cap agg rs) = True"
| "running r = False"

definition in_flight :: "('a, 'r) run list \<Rightarrow> nat" where
  "in_flight rs = length (filter running rs)"

fun under_cap :: "nat option \<Rightarrow> nat \<Rightarrow> bool" where
  "under_cap None k = True"
| "under_cap (Some c) k = (k < c)"

fun results :: "('a, 'r) run list \<Rightarrow> 'r list option" where
  "results [] = Some []"
| "results (Finished v # rs) = (case results rs of None \<Rightarrow> None | Some vs \<Rightarrow> Some (v # vs))"
| "results (r # rs) = None"

text \<open>
  A step is labelled with the place of the item it concerns and with what happens there:
  a leaf body is launched or lands, a nested fan-out opens or closes.
\<close>

datatype kind = Launch | Land | Open | Close

fun start_kind :: "('a, 'r) job \<Rightarrow> kind" where
  "start_kind (Leaf a) = Launch"
| "start_kind (Fan cap agg js) = Open"

inductive step :: "('a \<Rightarrow> 'r) \<Rightarrow> ('a, 'r) run \<Rightarrow> nat list \<times> kind \<Rightarrow> ('a, 'r) run \<Rightarrow> bool"
  for body :: "'a \<Rightarrow> 'r"
where
  land: "step body (Active a) ([], Land) (Finished (body a))"
| close: "results rs = Some vs \<Longrightarrow> step body (Mapping cap agg rs) ([], Close) (Finished (agg vs))"
| admit: "i < length rs \<Longrightarrow> rs ! i = Waiting j \<Longrightarrow> under_cap cap (in_flight rs) \<Longrightarrow>
          step body (Mapping cap agg rs) ([i], start_kind j) (Mapping cap agg (rs[i := start j]))"
| inner: "i < length rs \<Longrightarrow> step body (rs ! i) (p, k) r' \<Longrightarrow>
          step body (Mapping cap agg rs) (i # p, k) (Mapping cap agg (rs[i := r']))"

inductive steps ::
  "('a \<Rightarrow> 'r) \<Rightarrow> ('a, 'r) run \<Rightarrow> (nat list \<times> kind) list \<Rightarrow> ('a, 'r) run \<Rightarrow> bool"
  for body :: "'a \<Rightarrow> 'r"
where
  stop: "steps body r [] r"
| go: "step body r l r' \<Longrightarrow> steps body r' ls r'' \<Longrightarrow> steps body r (l # ls) r''"


text \<open>The number of leaf bodies of a job, and of those in flight in a run.\<close>

fun leaves :: "('a, 'r) job \<Rightarrow> nat" where
  "leaves (Leaf a) = 1"
| "leaves (Fan cap agg js) = sum_list (map leaves js)"


definition count_kind :: "kind \<Rightarrow> (nat list \<times> kind) list \<Rightarrow> nat" where
  "count_kind k ls = length (filter (\<lambda>l. snd l = k) ls)"

text \<open>
  The fan-out of a state on an input: a task state is one leaf body (its state, context
  object and input); a Map state is a fan-out over its items with the Map's cap, each item
  being the fan-out of the body state on the item's input. What follows a state in its
  chain is not part of its fan-out.
\<close>

fun fanout ::
  "store \<Rightarrow> nat \<Rightarrow> json \<Rightarrow> string \<Rightarrow> json \<Rightarrow> (string \<times> json \<times> json, error + json) job option"
where
  "fanout st 0 ctx sid inp = None"
| "fanout st (Suc n) ctx sid inp =
     (case st sid of
        None \<Rightarrow> None
      | Some s \<Rightarrow>
          (case def s of
             sfn_Task t rp \<Rightarrow> Some (Leaf (sid, ctx, inp))
           | sfn_Map ip rp mc ps it \<Rightarrow>
               (case it of
                  None \<Rightarrow> None
                | Some body \<Rightarrow>
                    (case items_at ip inp of
                       None \<Rightarrow> None
                     | Some items \<Rightarrow>
                         map_option (Fan mc (gather sid rp inp))
                           (those
                              (map (\<lambda>(i, item).
                                      case item_input ps (item_context i item) inp item of
                                        None \<Rightarrow> None
                                      | Some x \<Rightarrow> fanout st n (item_context i item) body x)
                                   (enumerate 0 items)))))))"

text \<open>The result of a leaf body: the run of its state on its input.\<close>

definition leaf_result ::
  "env \<Rightarrow> store \<Rightarrow> nat \<Rightarrow> string \<times> json \<times> json \<Rightarrow> error + json" where
  "leaf_result env st n l =
     (case l of (sid, ctx, x) \<Rightarrow> snd (exec_chain env st n [] ctx sid x))"

text \<open>The run of one top-level state of the task alone, from its input to its output.\<close>

definition run_phase ::
  "env \<Rightarrow> fragment \<Rightarrow> nat \<Rightarrow> string \<Rightarrow> json \<Rightarrow> event list \<times> (error + json)" where
  "run_phase env f n sid inp =
     (case states f sid of
        None \<Rightarrow> ([], Inl (UndefinedState sid))
      | Some s \<Rightarrow> exec_state env (states f) n [] (JObj []) sid s inp)"

section \<open>Invariants of the executor\<close>



text \<open>The leaf bodies of a run not yet launched, and those not yet landed.\<close>

fun unlaunched :: "('a, 'r) run \<Rightarrow> nat" where
  "unlaunched (Waiting j) = leaves j"
| "unlaunched (Mapping cap agg rs) = sum_list (map unlaunched rs)"
| "unlaunched r = 0"

fun unlanded :: "('a, 'r) run \<Rightarrow> nat" where
  "unlanded (Waiting j) = leaves j"
| "unlanded (Active a) = 1"
| "unlanded (Mapping cap agg rs) = sum_list (map unlanded rs)"
| "unlanded (Finished v) = 0"

text \<open>
  The value of a job, computed item by item in the order of the items, and the value a run
  will have once finished.
\<close>

fun eval :: "('a \<Rightarrow> 'r) \<Rightarrow> ('a, 'r) job \<Rightarrow> 'r" where
  "eval body (Leaf a) = body a"
| "eval body (Fan cap agg js) = agg (map (eval body) js)"

fun outcome :: "('a \<Rightarrow> 'r) \<Rightarrow> ('a, 'r) run \<Rightarrow> 'r" where
  "outcome body (Waiting j) = eval body j"
| "outcome body (Active a) = body a"
| "outcome body (Mapping cap agg rs) = agg (map (outcome body) rs)"
| "outcome body (Finished v) = v"

text \<open>
  A job can run when every cap admits at least one item. A job fits under its caps when
  every fan-out has no more items than its cap; then everything can be in flight at once,
  which is the run \<open>full\<close>.
\<close>

fun runnable :: "('a, 'r) job \<Rightarrow> bool" where
  "runnable (Leaf a) = True"
| "runnable (Fan cap agg js) =
     ((case cap of None \<Rightarrow> True | Some c \<Rightarrow> 0 < c) \<and> list_all runnable js)"



section \<open>The templates, resolved\<close>

text \<open>
  What the parameter templates of the Maps and the input templates of the deployment
  tasks resolve to: the input of a hub item, of a hub deployment, of an account item, of a
  region item and of an account deployment.
\<close>

definition hub_item :: "Props \<Rightarrow> json \<Rightarrow> json \<Rightarrow> json \<Rightarrow> json" where
  "hub_item props a ou r =
     JObj [(''accountId'', a), (''organizationId'', ou), (''region'', r),
           (''acceleratorPrefix'', JStr (acceleratorPrefix props)),
           (''assumeRoleName'', JStr (assumeRoleName props))]"

definition hub_input :: "Props \<Rightarrow> json \<Rightarrow> json \<Rightarrow> json \<Rightarrow> json" where
  "hub_input props a ou r =
     JObj [(''stackName'', JStr (bootStrapStackName props)),
           (''stackCapabilities'', JArr [JStr ''CAPABILITY_NAMED_IAM'']),
           (''stackParameters'', JObj [(''OrganizationId'', ou)]),
           (''stackTemplate'',
              JObj [(''s3BucketName'', JStr (s3BucketName props)),
                    (''s3ObjectKey'', JStr (operationsBootstrapObjectKey props))]),
           (''accountId'', a),
           (''assumeRoleName'', JStr (assumeRoleName props)),
           (''region'', r)]"

definition account_item :: "Props \<Rightarrow> json \<Rightarrow> json \<Rightarrow> json" where
  "account_item props a os =
     JObj [(''accountId'', a), (''bootstrapRegions'', os),
           (''acceleratorPrefix'', JStr (acceleratorPrefix props)),
           (''assumeRoleName'', JStr (assumeRoleName props))]"

definition region_item :: "Props \<Rightarrow> json \<Rightarrow> json \<Rightarrow> json" where
  "region_item props a item =
     JObj [(''accountId'', a), (''bootstrapRegion'', item),
           (''acceleratorPrefix'', JStr (acceleratorPrefix props)),
           (''assumeRoleName'', JStr (assumeRoleName props))]"

definition leaf_input :: "Props \<Rightarrow> json \<Rightarrow> json \<Rightarrow> json \<Rightarrow> json" where
  "leaf_input props a b r =
     JObj [(''stackName'', JStr (bootStrapStackName props)),
           (''stackCapabilities'', JArr [JStr ''CAPABILITY_NAMED_IAM'']),
           (''stackParameters'', JObj [(''BucketName'', b), (''BucketDomainName'', b)]),
           (''stackTemplate'',
              JObj [(''s3BucketName'', JStr (s3BucketName props)),
                    (''s3ObjectKey'', JStr (accountBootstrapObjectKey props))]),
           (''accountId'', a),
           (''assumeRoleName'', JStr (assumeRoleName props)),
           (''region'', r)]"

text \<open>
  The output of a hub item: its input, extended with the result of the deployment under
  \<open>opsBootstrapOutput\<close>.
\<close>

definition hub_output :: "Props \<Rightarrow> json \<Rightarrow> json \<Rightarrow> json \<Rightarrow> json \<Rightarrow> json" where
  "hub_output props a ou r v =
     JObj [(''accountId'', a), (''organizationId'', ou), (''region'', r),
           (''acceleratorPrefix'', JStr (acceleratorPrefix props)),
           (''assumeRoleName'', JStr (assumeRoleName props)),
           (''opsBootstrapOutput'', v)]"

section \<open>The events of the account phase\<close>

text \<open>
  An event belongs to the account phase when it is the entry or the exit of one of its three
  states (the account Map, the region Map, the deployment task), or a run of the account
  sub-workflow.
\<close>

fun account_phase_event :: "Props \<Rightarrow> event \<Rightarrow> bool" where
  "account_phase_event props (Enter p sid) =
     (sid = createBootstrapInAccount_id \<or> sid = createBootstrapInRegion_id \<or> sid = bootstrapTask_id)"
| "account_phase_event props (Exit p sid ok) =
     (sid = createBootstrapInAccount_id \<or> sid = createBootstrapInRegion_id \<or> sid = bootstrapTask_id)"
| "account_phase_event props (Executed p m x r) =
     (m = stateMachineName (bootstrapStateMachine props))"
| "account_phase_event props (Started p m x) =
     (m = stateMachineName (bootstrapStateMachine props))"
| "account_phase_event props (Invoked p h x r) = False"

section \<open>An example deployment\<close>

text \<open>
  Two regions and two accounts. The invoker answers the account lookup with the operations
  account and the aggregation with the accounts and the per-region outputs; the sub-workflow
  runner reports the stack as created. In \<open>failing_env\<close> one deployment fails:
  account 222 in us-west-2.
\<close>

definition example_props :: Props where
  "example_props =
     \<lparr>role = \<lparr>roleName = ''PipelineRole'', policy = []\<rparr>, lambdaCode = ''lambda.zip'',
      acceleratorPrefix = ''PBMMAccel-'', s3BucketName = ''artifacts'',
      operationsBootstrapObjectKey = ''operations.json'',
      accountBootstrapObjectKey = ''account.json'', assumeRoleName = ''PipelineRole'',
      bootStrapStackName = ''CDKToolkit'', functionPayload = None, waitSeconds = None\<rparr>"

definition example_fields :: "(string \<times> json) list" where
  "example_fields =
     [(''configRepositoryName'', JStr ''config''),
      (''configFilePath'', JStr ''config.json''),
      (''configCommitId'', JStr ''abc123''),
      (''accountsTableName'', JStr ''accounts''),
      (''regions'', JArr [JStr ''us-east-1'', JStr ''us-west-2'']),
      (''accounts'', JArr [JStr ''111'', JStr ''222''])]"

definition example_doc :: json where
  "example_doc = JObj example_fields"

definition example_invoke :: "string \<Rightarrow> json \<Rightarrow> string + json" where
  "example_invoke h payload =
     (if h = ''index.getAccountInfo''
      then Inr (JObj [(''id'', JStr ''999''), (''ou'', JStr ''core'')])
      else Inr (JObj [(''accounts'', JArr [JStr ''111'', JStr ''222'']),
                      (''outputs'',
                         JArr [JObj [(''region'', JStr ''us-east-1''),
                                     (''bucketDomain'', JStr ''b1'')],
                               JObj [(''region'', JStr ''us-west-2''),
                                     (''bucketDomain'', JStr ''b2'')]])]))"

definition example_env :: env where
  "example_env =
     \<lparr>invoke = example_invoke,
      runSync = (\<lambda>name x. Inr (JObj [(''status'', JStr ''CREATE_COMPLETE'')]))\<rparr>"

definition failing_env :: env where
  "failing_env =
     \<lparr>invoke = example_invoke,
      runSync = (\<lambda>name x.
        if field ''accountId'' x = Some (JStr ''222'') \<and>
           field ''region'' x = Some (JStr ''us-west-2'')
        then Inl ''denied'' else Inr (JObj [(''status'', JStr ''CREATE_COMPLETE'')]))\<rparr>"

text \<open>
  The example task, and the documents of the example after the account lookup, after the
  hub regions and after the aggregation.
\<close>

definition example_task :: fragment where
  "example_task =
     (case CDKBootstrapTask example_props of
        Inr f \<Rightarrow> f
      | Inl e \<Rightarrow> \<lparr>states = Map.empty, frag_startState = [], frag_endStates = [],
                  frag_role = role example_props\<rparr>)"

definition after_lookup :: json where
  "after_lookup =
     JObj (example_fields @
       [(''operationsAccount'', JObj [(''id'', JStr ''999''), (''ou'', JStr ''core'')])])"

definition hub_outputs :: json where
  "hub_outputs =
     JArr [JObj [(''accountId'', JStr ''999''), (''organizationId'', JStr ''core''),
                 (''region'', JStr ''us-east-1''),
                 (''acceleratorPrefix'', JStr ''PBMMAccel-''),
                 (''assumeRoleName'', JStr ''PipelineRole''),
                 (''opsBootstrapOutput'', JObj [(''status'', JStr ''CREATE_COMPLETE'')])],
           JObj [(''accountId'', JStr ''999''), (''organizationId'', JStr ''core''),
                 (''region'', JStr ''us-west-2''),
                 (''acceleratorPrefix'', JStr ''PBMMAccel-''),
                 (''assumeRoleName'', JStr ''PipelineRole''),
                 (''opsBootstrapOutput'', JObj [(''status'', JStr ''CREATE_COMPLETE'')])]]"

definition after_hub :: json where
  "after_hub =
     JObj (example_fields @
       [(''operationsAccount'', JObj [(''id'', JStr ''999''), (''ou'', JStr ''core'')]),
        (''bootstrap'', hub_outputs)])"

definition aggregated :: json where
  "aggregated =
     JObj [(''accounts'', JArr [JStr ''111'', JStr ''222'']),
           (''outputs'',
              JArr [JObj [(''region'', JStr ''us-east-1''), (''bucketDomain'', JStr ''b1'')],
                    JObj [(''region'', JStr ''us-west-2''), (''bucketDomain'', JStr ''b2'')]])]"

definition after_aggregation :: json where
  "after_aggregation =
     JObj (example_fields @
       [(''operationsAccount'', JObj [(''id'', JStr ''999''), (''ou'', JStr ''core'')]),
        (''bootstrap'', aggregated)])"

section \<open>The constructed state graph\<close>

lemmas id_defs = getAccountInfoTask_id_def createRootBootstrapInRegion_id_def
  bootstrapOpsTask_id_def getBootstrapOutput_id_def createBootstrapInAccount_id_def
  createBootstrapInRegion_id_def bootstrapTask_id_def

lemma ids_distinct:
  "distinct [getAccountInfoTask_id, createRootBootstrapInRegion_id, bootstrapOpsTask_id,
     getBootstrapOutput_id, createBootstrapInAccount_id, createBootstrapInRegion_id,
     bootstrapTask_id]"
  by (simp add: id_defs)

lemma ids_neq:
  "getAccountInfoTask_id \<noteq> createRootBootstrapInRegion_id"
  "getAccountInfoTask_id \<noteq> bootstrapOpsTask_id"
  "getAccountInfoTask_id \<noteq> getBootstrapOutput_id"
  "getAccountInfoTask_id \<noteq> createBootstrapInAccount_id"
  "getAccountInfoTask_id \<noteq> createBootstrapInRegion_id"
  "getAccountInfoTask_id \<noteq> bootstrapTask_id"
  "createRootBootstrapInRegion_id \<noteq> bootstrapOpsTask_id"
  "createRootBootstrapInRegion_id \<noteq> getBootstrapOutput_id"
  "createRootBootstrapInRegion_id \<noteq> createBootstrapInAccount_id"
  "createRootBootstrapInRegion_id \<noteq> createBootstrapInRegion_id"
  "createRootBootstrapInRegion_id \<noteq> bootstrapTask_id"
  "bootstrapOpsTask_id \<noteq> getBootstrapOutput_id"
  "bootstrapOpsTask_id \<noteq> createBootstrapInAccount_id"
  "bootstrapOpsTask_id \<noteq> createBootstrapInRegion_id"
  "bootstrapOpsTask_id \<noteq> bootstrapTask_id"
  "getBootstrapOutput_id \<noteq> createBootstrapInAccount_id"
  "getBootstrapOutput_id \<noteq> createBootstrapInRegion_id"
  "getBootstrapOutput_id \<noteq> bootstrapTask_id"
  "createBootstrapInAccount_id \<noteq> createBootstrapInRegion_id"
  "createBootstrapInAccount_id \<noteq> bootstrapTask_id"
  "createBootstrapInRegion_id \<noteq> bootstrapTask_id"
  using ids_distinct by simp_all

lemmas build_defs = CDKBootstrapTask_def sum_bind_def new_state_def iterator_def
  Chain_next_def Chain_start_def make_next_def createRootBootstrapInRegion_def
  createBootstrapInAccount_def createBootstrapInRegion_def

lemma built:
  assumes "CDKBootstrapTask props = Inr f"
  shows "states f getAccountInfoTask_id =
           Some \<lparr>def = getAccountInfoTask props,
                 nextState = Some createRootBootstrapInRegion_id\<rparr>"
    and "states f createRootBootstrapInRegion_id =
           Some \<lparr>def = sfn_Map (Some ''$.regions'') (Some ''$.bootstrap'') (Some 20)
                   (Some (createRootBootstrapInRegion_parameters props))
                   (Some bootstrapOpsTask_id),
                 nextState = Some getBootstrapOutput_id\<rparr>"
    and "states f bootstrapOpsTask_id =
           Some \<lparr>def = bootstrapOpsTask props, nextState = None\<rparr>"
    and "states f getBootstrapOutput_id =
           Some \<lparr>def = getBootstrapOutput props,
                 nextState = Some createBootstrapInAccount_id\<rparr>"
    and "states f createBootstrapInAccount_id =
           Some \<lparr>def = sfn_Map (Some ''$.bootstrap.accounts'') (Some ''DISCARD'') (Some 10)
                   (Some (createBootstrapInAccount_parameters props))
                   (Some createBootstrapInRegion_id),
                 nextState = None\<rparr>"
    and "states f createBootstrapInRegion_id =
           Some \<lparr>def = sfn_Map (Some ''$.bootstrapRegions'') (Some ''DISCARD'') (Some 16)
                   (Some (createBootstrapInRegion_parameters props))
                   (Some bootstrapTask_id),
                 nextState = None\<rparr>"
    and "states f bootstrapTask_id = Some \<lparr>def = bootstrapTask props, nextState = None\<rparr>"
    and "frag_startState f = getAccountInfoTask_id"
    and "frag_endStates f = [createBootstrapInAccount_id]"
    and "frag_role f = grantedRole props"
  using assms
  by (auto simp add: build_defs ids_neq ids_neq[symmetric])

lemma constructed: "\<exists>f. CDKBootstrapTask props = Inr f"
  by (simp add: build_defs ids_neq ids_neq[symmetric])

section \<open>Facts about runs\<close>

declare exec_state.simps [simp del]

lemma snd_then_next:
  "snd (then_next p sid k r) =
     (case snd r of
        Inl e \<Rightarrow> Inl e
      | Inr out \<Rightarrow> (case k of None \<Rightarrow> Inr out | Some g \<Rightarrow> snd (g out)))"
  by (auto simp add: then_next_def split: prod.splits sum.splits option.splits)

lemma fst_then_next:
  "fst (then_next p sid k r) =
     Enter p sid # fst r @
       (case snd r of
          Inl e \<Rightarrow> [Exit p sid False]
        | Inr out \<Rightarrow> Exit p sid True # (case k of None \<Rightarrow> [] | Some g \<Rightarrow> fst (g out)))"
  by (auto simp add: then_next_def split: prod.splits sum.splits option.splits)

lemma fst_run_map:
  "items_at ip inp = Some items \<Longrightarrow>
   fst (run_map sid ip rp ps body inp) =
     concat (map (\<lambda>(i, item).
                    case item_input ps (item_context i item) inp item of
                      None \<Rightarrow> []
                    | Some x \<Rightarrow> fst (body i item x))
                 (enumerate 0 items))"
  by (auto simp add: run_map_def Let_def comp_def intro!: arg_cong [where f = concat]
      split: option.splits prod.splits)

lemma snd_run_map:
  "items_at ip inp = Some items \<Longrightarrow>
   snd (run_map sid ip rp ps body inp) =
     gather sid rp inp
       (map (\<lambda>(i, item).
               case item_input ps (item_context i item) inp item of
                 None \<Rightarrow> Inl (RuntimeError sid)
               | Some x \<Rightarrow> snd (body i item x))
            (enumerate 0 items))"
  by (auto simp add: run_map_def Let_def comp_def intro!: arg_cong [where f = "gather sid rp inp"]
      split: option.splits prod.splits)

lemma run_map_no_items:
  "items_at ip inp = None \<Longrightarrow> run_map sid ip rp ps body inp = ([], Inl (RuntimeError sid))"
  by (simp add: run_map_def)

lemma outcomes_append: "outcomes (xs @ ys) = outcomes xs @ outcomes ys"
  by (induction xs rule: outcomes.induct) simp_all

lemma outcomes_concat: "outcomes (concat xss) = concat (map outcomes xss)"
  by (induction xss) (simp_all add: outcomes_append)

lemma collect_isl: "r \<in> set rs \<Longrightarrow> isl r \<Longrightarrow> isl (collect rs)"
  by (induction rs) (auto split: sum.splits)

lemma gather_isl: "r \<in> set rs \<Longrightarrow> isl r \<Longrightarrow> isl (gather sid rp inp rs)"
  using collect_isl [of r rs] by (auto simp add: gather_def split: sum.splits)

lemma run_task_failure:
  "Inl d \<in> set (outcomes (fst (run_task_state env p ctx sid t rp inp))) \<Longrightarrow>
   isl (snd (run_task_state env p ctx sid t rp inp))"
  by (auto simp add: run_task_state_def run_task_def Let_def
      split: task.splits option.splits ServiceIntegrationPattern.splits prod.splits sum.splits)

lemma run_map_failure:
  assumes body: "\<And>i item x. Inl d \<in> set (outcomes (fst (body i item x))) \<Longrightarrow> isl (snd (body i item x))"
    and bad: "Inl d \<in> set (outcomes (fst (run_map sid ip rp ps body inp)))"
  shows "isl (snd (run_map sid ip rp ps body inp))"
proof (cases "items_at ip inp")
  case None
  then show ?thesis by (simp add: run_map_no_items)
next
  case (Some items)
  from bad obtain i item where mem: "(i, item) \<in> set (enumerate 0 items)"
    and ev: "Inl d \<in> set (outcomes (case item_input ps (item_context i item) inp item of
                None \<Rightarrow> [] | Some x \<Rightarrow> fst (body i item x)))"
    by (auto simp add: fst_run_map [OF Some] outcomes_concat)
  then obtain x where x: "item_input ps (item_context i item) inp item = Some x"
    and fails: "Inl d \<in> set (outcomes (fst (body i item x)))"
    by (cases "item_input ps (item_context i item) inp item") auto
  from fails have "isl (snd (body i item x))" by (rule body)
  with mem x show ?thesis
    unfolding snd_run_map [OF Some]
    by (intro gather_isl [where r = "snd (body i item x)"]) (auto intro!: image_eqI [where x = "(i, item)"])
qed

lemma failure_propagates:
  "Inl d \<in> set (outcomes (fst (exec_state env st n p ctx sid s inp))) \<longrightarrow>
     isl (snd (exec_state env st n p ctx sid s inp))"
  "Inl d \<in> set (outcomes (fst (exec_chain env st n p ctx sid inp))) \<longrightarrow>
     isl (snd (exec_chain env st n p ctx sid inp))"
proof (induction env st n p ctx sid s inp and env st n p ctx sid inp
    rule: exec_state_exec_chain.induct)
  case (1 env st n path ctx sid s inp)
  show ?case
  proof (cases "def s")
    case (sfn_Task t rp)
    then show ?thesis by (simp add: exec_state.simps run_task_failure)
  next
    case (sfn_Map ip rp mc ps it)
    show ?thesis
    proof (cases it)
      case None
      with sfn_Map show ?thesis by (simp add: exec_state.simps)
    next
      case (Some body)
      with sfn_Map 1 show ?thesis
        by (auto simp add: exec_state.simps intro!: run_map_failure)
    qed
  qed
next
  case (2 env st path ctx sid inp)
  show ?case by simp
next
  case (3 env st n path ctx sid inp)
  show ?case
  proof (cases "st sid")
    case None
    then show ?thesis by simp
  next
    case (Some s)
    with 3 show ?thesis
      by (auto simp add: snd_then_next fst_then_next outcomes_append
          split: sum.splits option.splits)
  qed
qed

section \<open>The templates and the phases of the task\<close>

lemma field_put: "map_of (put k v kvs) k' = (if k' = k then Some v else map_of kvs k')"
  by (induction kvs) auto

lemmas path_defs = parse_path_def is_path_key_def strip_key_def deref_def

lemma items_at_regions:
  "items_at (Some ''$.regions'') d =
     (case field ''regions'' d of Some (JArr items) \<Rightarrow> Some items | _ \<Rightarrow> None)"
  by (simp add: items_at_def path_defs split: option.splits)

lemma items_at_accounts:
  "items_at (Some ''$.bootstrap.accounts'') d =
     (case get_path [''bootstrap'', ''accounts''] d of Some (JArr items) \<Rightarrow> Some items | _ \<Rightarrow> None)"
  by (simp add: items_at_def path_defs split: option.splits)

lemma items_at_bootstrapRegions:
  "items_at (Some ''$.bootstrapRegions'') d =
     (case field ''bootstrapRegions'' d of Some (JArr items) \<Rightarrow> Some items | _ \<Rightarrow> None)"
  by (simp add: items_at_def path_defs split: option.splits)

lemma hub_item_input:
  "item_input (Some (createRootBootstrapInRegion_parameters props)) (item_context i item) d item =
     (case get_path [''operationsAccount'', ''id''] d of
        None \<Rightarrow> None
      | Some a \<Rightarrow>
          (case get_path [''operationsAccount'', ''ou''] d of
             None \<Rightarrow> None
           | Some ou \<Rightarrow>
               Some (JObj [(''accountId'', a), (''organizationId'', ou), (''region'', item),
                           (''acceleratorPrefix'', JStr (acceleratorPrefix props)),
                           (''assumeRoleName'', JStr (assumeRoleName props))])))"
  by (simp add: item_input_def item_context_def createRootBootstrapInRegion_parameters_def
      path_defs split: option.splits)

lemma hub_task_input:
  "resolve ctx (JObj [(''accountId'', a), (''organizationId'', ou), (''region'', r),
                      (''acceleratorPrefix'', pre), (''assumeRoleName'', rn)])
     (bootstrapOpsTask_input props) =
   Some (JObj [(''stackName'', JStr (bootStrapStackName props)),
               (''stackCapabilities'', JArr [JStr ''CAPABILITY_NAMED_IAM'']),
               (''stackParameters'', JObj [(''OrganizationId'', ou)]),
               (''stackTemplate'',
                  JObj [(''s3BucketName'', JStr (s3BucketName props)),
                        (''s3ObjectKey'', JStr (operationsBootstrapObjectKey props))]),
               (''accountId'', a),
               (''assumeRoleName'', JStr (assumeRoleName props)),
               (''region'', r)])"
  by (simp add: bootstrapOpsTask_input_def path_defs)

lemma account_item_input:
  "item_input (Some (createBootstrapInAccount_parameters props)) (item_context i item) d item =
     (case get_path [''bootstrap'', ''outputs''] d of
        None \<Rightarrow> None
      | Some os \<Rightarrow>
          Some (JObj [(''accountId'', item), (''bootstrapRegions'', os),
                      (''acceleratorPrefix'', JStr (acceleratorPrefix props)),
                      (''assumeRoleName'', JStr (assumeRoleName props))]))"
  by (simp add: item_input_def item_context_def createBootstrapInAccount_parameters_def
      path_defs split: option.splits)

lemma region_item_input:
  "item_input (Some (createBootstrapInRegion_parameters props)) (item_context j item)
     (JObj [(''accountId'', a), (''bootstrapRegions'', os),
            (''acceleratorPrefix'', pre), (''assumeRoleName'', rn)]) item =
   Some (JObj [(''accountId'', a), (''bootstrapRegion'', item),
               (''acceleratorPrefix'', JStr (acceleratorPrefix props)),
               (''assumeRoleName'', JStr (assumeRoleName props))])"
  by (simp add: item_input_def item_context_def createBootstrapInRegion_parameters_def
      path_defs)

lemma leaf_task_input:
  "resolve ctx (JObj [(''accountId'', a), (''bootstrapRegion'', item),
                      (''acceleratorPrefix'', pre), (''assumeRoleName'', rn)])
     (bootstrapTask_input props) =
   (case field ''bucketDomain'' item of
      None \<Rightarrow> None
    | Some b \<Rightarrow>
        (case field ''region'' item of
           None \<Rightarrow> None
         | Some r \<Rightarrow>
             Some (JObj [(''stackName'', JStr (bootStrapStackName props)),
                         (''stackCapabilities'', JArr [JStr ''CAPABILITY_NAMED_IAM'']),
                         (''stackParameters'',
                            JObj [(''BucketName'', b), (''BucketDomainName'', b)]),
                         (''stackTemplate'',
                            JObj [(''s3BucketName'', JStr (s3BucketName props)),
                                  (''s3ObjectKey'', JStr (accountBootstrapObjectKey props))]),
                         (''accountId'', a),
                         (''assumeRoleName'', JStr (assumeRoleName props)),
                         (''region'', r)])))"
  by (simp add: bootstrapTask_input_def path_defs split: option.splits)

lemma result_path_discard: "apply_result_path (Some ''DISCARD'') inp v = Some inp"
  by (simp add: apply_result_path_def)

lemma result_path_field:
  "apply_result_path (Some (''$.'' @ k)) inp v =
     (case parse_path (''$.'' @ k) of Some (Input, ks) \<Rightarrow> set_path ks v inp | _ \<Rightarrow> None)"
  by (simp add: apply_result_path_def)

lemma result_path_operationsAccount:
  "apply_result_path (Some ''$.operationsAccount'') inp v =
     (case inp of JObj kvs \<Rightarrow> Some (JObj (put ''operationsAccount'' v kvs)) | _ \<Rightarrow> None)"
  by (cases inp) (simp_all add: apply_result_path_def path_defs)

lemma result_path_bootstrap:
  "apply_result_path (Some ''$.bootstrap'') inp v =
     (case inp of JObj kvs \<Rightarrow> Some (JObj (put ''bootstrap'' v kvs)) | _ \<Rightarrow> None)"
  by (cases inp) (simp_all add: apply_result_path_def path_defs)

lemma result_path_opsBootstrapOutput:
  "apply_result_path (Some ''$.opsBootstrapOutput'') inp v =
     (case inp of JObj kvs \<Rightarrow> Some (JObj (put ''opsBootstrapOutput'' v kvs)) | _ \<Rightarrow> None)"
  by (cases inp) (simp_all add: apply_result_path_def path_defs)

lemma phase_getAccountInfo:
  assumes "CDKBootstrapTask props = Inr f"
  shows "run_phase env f n getAccountInfoTask_id d =
           run_task_state env [] (JObj []) getAccountInfoTask_id
             (InvokeFunction
                \<lparr>fn_role = grantedRole props, fn_code = lambdaCode props,
                 fn_handler = ''index.getAccountInfo''\<rparr>
                getAccountInfoTask_functionPayload)
             (Some ''$.operationsAccount'') d"
  by (simp add: run_phase_def built(1) [OF assms] exec_state.simps getAccountInfoTask_def
      CodeTask_def)

lemma phase_getBootstrapOutput:
  assumes "CDKBootstrapTask props = Inr f"
  shows "run_phase env f n getBootstrapOutput_id d =
           run_task_state env [] (JObj []) getBootstrapOutput_id
             (InvokeFunction
                \<lparr>fn_role = grantedRole props, fn_code = lambdaCode props,
                 fn_handler = ''index.getBootstrapOutput''\<rparr>
                getBootstrapOutput_functionPayload)
             (Some ''$.bootstrap'') d"
  by (simp add: run_phase_def built(4) [OF assms] exec_state.simps getBootstrapOutput_def
      CodeTask_def)

lemma exec_bootstrapOpsTask:
  assumes "CDKBootstrapTask props = Inr f"
  shows "exec_chain env (states f) (Suc n) p ctx bootstrapOpsTask_id =
           (\<lambda>x. then_next p bootstrapOpsTask_id None
             (run_task_state env p ctx bootstrapOpsTask_id
                (StartExecution (bootstrapMasterStateMachine props) SYNC
                   (bootstrapOpsTask_input props))
                (Some ''$.opsBootstrapOutput'') x))"
  by (rule ext) (simp add: built(3) [OF assms] exec_state.simps bootstrapOpsTask_def)

lemma exec_bootstrapTask:
  assumes "CDKBootstrapTask props = Inr f"
  shows "exec_chain env (states f) (Suc n) p ctx bootstrapTask_id =
           (\<lambda>x. then_next p bootstrapTask_id None
             (run_task_state env p ctx bootstrapTask_id
                (StartExecution (bootstrapStateMachine props) SYNC (bootstrapTask_input props))
                (Some ''DISCARD'') x))"
  by (rule ext) (simp add: built(7) [OF assms] exec_state.simps bootstrapTask_def)

lemma exec_createBootstrapInRegion:
  assumes "CDKBootstrapTask props = Inr f"
  shows "exec_chain env (states f) (Suc (Suc n)) p ctx createBootstrapInRegion_id =
           (\<lambda>x. then_next p createBootstrapInRegion_id None
             (run_map createBootstrapInRegion_id (Some ''$.bootstrapRegions'') (Some ''DISCARD'')
                (Some (createBootstrapInRegion_parameters props))
                (\<lambda>j item y.
                   then_next (p @ [j]) bootstrapTask_id None
                     (run_task_state env (p @ [j]) (item_context j item) bootstrapTask_id
                        (StartExecution (bootstrapStateMachine props) SYNC
                           (bootstrapTask_input props))
                        (Some ''DISCARD'') y))
                x))"
  by (rule ext) (simp add: built(6) [OF assms] exec_state.simps exec_bootstrapTask [OF assms])

lemma phase_createRootBootstrapInRegion:
  assumes "CDKBootstrapTask props = Inr f"
  shows "run_phase env f (Suc n) createRootBootstrapInRegion_id d =
           run_map createRootBootstrapInRegion_id (Some ''$.regions'') (Some ''$.bootstrap'')
             (Some (createRootBootstrapInRegion_parameters props))
             (\<lambda>i item x.
                then_next [i] bootstrapOpsTask_id None
                  (run_task_state env [i] (item_context i item) bootstrapOpsTask_id
                     (StartExecution (bootstrapMasterStateMachine props) SYNC
                        (bootstrapOpsTask_input props))
                     (Some ''$.opsBootstrapOutput'') x))
             d"
  by (simp add: run_phase_def built(2) [OF assms] exec_state.simps
      exec_bootstrapOpsTask [OF assms])

lemma phase_createBootstrapInAccount:
  assumes "CDKBootstrapTask props = Inr f"
  shows "run_phase env f (Suc (Suc n)) createBootstrapInAccount_id d =
           run_map createBootstrapInAccount_id (Some ''$.bootstrap.accounts'') (Some ''DISCARD'')
             (Some (createBootstrapInAccount_parameters props))
             (\<lambda>i item x.
                then_next [i] createBootstrapInRegion_id None
                  (run_map createBootstrapInRegion_id (Some ''$.bootstrapRegions'')
                     (Some ''DISCARD'') (Some (createBootstrapInRegion_parameters props))
                     (\<lambda>j item' y.
                        then_next [i, j] bootstrapTask_id None
                          (run_task_state env [i, j] (item_context j item') bootstrapTask_id
                             (StartExecution (bootstrapStateMachine props) SYNC
                                (bootstrapTask_input props))
                             (Some ''DISCARD'') y))
                     x))
             d"
  by (simp add: run_phase_def built(5) [OF assms] exec_state.simps
      exec_createBootstrapInRegion [OF assms])

lemma exec_top:
  assumes "CDKBootstrapTask props = Inr f"
  shows "exec_chain env (states f) (Suc n) [] (JObj []) createBootstrapInAccount_id =
           (\<lambda>d. then_next [] createBootstrapInAccount_id None
                   (run_phase env f n createBootstrapInAccount_id d))"
    and "exec_chain env (states f) (Suc n) [] (JObj []) getBootstrapOutput_id =
           (\<lambda>d. then_next [] getBootstrapOutput_id
                   (Some (exec_chain env (states f) n [] (JObj []) createBootstrapInAccount_id))
                   (run_phase env f n getBootstrapOutput_id d))"
    and "exec_chain env (states f) (Suc n) [] (JObj []) createRootBootstrapInRegion_id =
           (\<lambda>d. then_next [] createRootBootstrapInRegion_id
                   (Some (exec_chain env (states f) n [] (JObj []) getBootstrapOutput_id))
                   (run_phase env f n createRootBootstrapInRegion_id d))"
    and "exec_chain env (states f) (Suc n) [] (JObj []) getAccountInfoTask_id =
           (\<lambda>d. then_next [] getAccountInfoTask_id
                   (Some (exec_chain env (states f) n [] (JObj [])
                            createRootBootstrapInRegion_id))
                   (run_phase env f n getAccountInfoTask_id d))"
  by (rule ext, simp add: run_phase_def built [OF assms])+

lemma run_phases:
  assumes "CDKBootstrapTask props = Inr f"
  shows "run env f (Suc (Suc (Suc (Suc n)))) doc =
           then_next [] getAccountInfoTask_id
             (Some (\<lambda>d1.
                then_next [] createRootBootstrapInRegion_id
                  (Some (\<lambda>d2.
                     then_next [] getBootstrapOutput_id
                       (Some (\<lambda>d3.
                          then_next [] createBootstrapInAccount_id None
                            (run_phase env f n createBootstrapInAccount_id d3)))
                       (run_phase env f (Suc n) getBootstrapOutput_id d2)))
                  (run_phase env f (Suc (Suc n)) createRootBootstrapInRegion_id d1)))
             (run_phase env f (Suc (Suc (Suc n))) getAccountInfoTask_id doc)"
  by (simp add: run_def built(8) [OF assms] exec_top [OF assms])

lemma phase_fuel:
  assumes "CDKBootstrapTask props = Inr f"
  shows "run_phase env f n getAccountInfoTask_id d = run_phase env f 0 getAccountInfoTask_id d"
    and "run_phase env f n getBootstrapOutput_id d = run_phase env f 0 getBootstrapOutput_id d"
    and "run_phase env f (Suc n) createRootBootstrapInRegion_id d =
           run_phase env f 1 createRootBootstrapInRegion_id d"
    and "run_phase env f (Suc (Suc n)) createBootstrapInAccount_id d =
           run_phase env f 2 createBootstrapInAccount_id d"
  using phase_createBootstrapInAccount [OF assms, of env 0 d]
    phase_createRootBootstrapInRegion [OF assms, of env 0 d]
  by (simp_all add: phase_getAccountInfo [OF assms] phase_getBootstrapOutput [OF assms]
      phase_createRootBootstrapInRegion [OF assms] phase_createBootstrapInAccount [OF assms]
      numeral_2_eq_2)

section \<open>Facts about the executor\<close>

lemma step_running: "step body r l r' \<Longrightarrow> running r"
  by (induction rule: step.induct) simp_all




lemma sum_list_update:
  "i < length xs \<Longrightarrow>
   sum_list (map g (xs[i := x])) + g (xs ! i) = sum_list (map g xs) + (g x :: nat)"
proof (induction xs arbitrary: i)
  case Nil
  then show ?case by simp
next
  case (Cons a xs)
  then show ?case by (cases i) auto
qed





lemma results_all_finished: "results rs = Some vs \<Longrightarrow> rs = map Finished vs"
proof (induction rs arbitrary: vs)
  case Nil
  then show ?case by simp
next
  case (Cons r rs)
  then show ?case by (cases r) (auto split: option.splits)
qed

lemma unlaunched_finished: "sum_list (map unlaunched (map Finished vs)) = 0"
  by (induction vs) simp_all

lemma unlanded_finished: "sum_list (map unlanded (map Finished vs)) = 0"
  by (induction vs) simp_all

lemma unlaunched_waiting: "sum_list (map unlaunched (map Waiting js)) = sum_list (map leaves js)"
  by (induction js) simp_all

lemma unlanded_waiting: "sum_list (map unlanded (map Waiting js)) = sum_list (map leaves js)"
  by (induction js) simp_all

lemma unlaunched_start:
  "unlaunched (start j) + (if start_kind j = Launch then 1 else 0) = leaves j"
  by (cases j) (simp_all add: comp_def)

lemma unlanded_start: "unlanded (start j) = leaves j"
  by (cases j) (simp_all add: comp_def)

lemma step_unlaunched:
  "step body r l r' \<Longrightarrow> unlaunched r = unlaunched r' + (if snd l = Launch then 1 else 0)"
proof (induction rule: step.induct)
  case (land a)
  then show ?case by simp
next
  case (close rs vs cap agg)
  then have "rs = map Finished vs" by (rule results_all_finished)
  then show ?case by (simp add: unlaunched_finished)
next
  case (admit i rs j cap agg)
  then show ?case
    using sum_list_update [of i rs unlaunched "start j"] unlaunched_start [of j] by simp
next
  case (inner i rs p k r' cap agg)
  then show ?case
    using sum_list_update [of i rs unlaunched r'] by simp
qed

lemma step_unlanded:
  "step body r l r' \<Longrightarrow> unlanded r = unlanded r' + (if snd l = Land then 1 else 0)"
proof (induction rule: step.induct)
  case (land a)
  then show ?case by simp
next
  case (close rs vs cap agg)
  then have "rs = map Finished vs" by (rule results_all_finished)
  then show ?case by (simp add: unlanded_finished)
next
  case (admit i rs j cap agg)
  then show ?case
    using sum_list_update [of i rs unlanded "start j"] unlanded_start [of j]
    by (cases j) simp_all
next
  case (inner i rs p k r' cap agg)
  then show ?case
    using sum_list_update [of i rs unlanded r'] by simp
qed

lemma steps_unlaunched:
  "steps body r ls r' \<Longrightarrow> unlaunched r = unlaunched r' + count_kind Launch ls"
  by (induction rule: steps.induct) (auto simp add: count_kind_def dest: step_unlaunched)

lemma steps_unlanded:
  "steps body r ls r' \<Longrightarrow> unlanded r = unlanded r' + count_kind Land ls"
  by (induction rule: steps.induct) (auto simp add: count_kind_def dest: step_unlanded)

lemma outcome_waiting: "map (outcome body) (map Waiting js) = map (eval body) js"
  by simp

lemma outcome_start: "outcome body (start j) = eval body j"
  by (cases j) (simp_all add: comp_def)

lemma step_outcome: "step body r l r' \<Longrightarrow> outcome body r' = outcome body r"
proof (induction rule: step.induct)
  case (land a)
  then show ?case by simp
next
  case (close rs vs cap agg)
  then have "rs = map Finished vs" by (rule results_all_finished)
  then show ?case by (simp add: comp_def)
next
  case (admit i rs j cap agg)
  then have "map (outcome body) (rs[i := start j]) = map (outcome body) rs"
    by (simp add: map_update outcome_start list_update_same_conv)
  then show ?case by simp
next
  case (inner i rs p k r' cap agg)
  then have "map (outcome body) (rs[i := r']) = map (outcome body) rs"
    by (simp add: map_update list_update_same_conv)
  then show ?case by simp
qed

lemma steps_outcome: "steps body r ls r' \<Longrightarrow> outcome body r' = outcome body r"
  by (induction rule: steps.induct) (auto dest: step_outcome)

text \<open>Every schedule of a job that finishes yields the job's value.\<close>

lemma steps_finished_eval:
  "steps body (start j) ls (Finished v) \<Longrightarrow> v = eval body j"
  using steps_outcome [of body "start j" ls "Finished v"] by (simp add: outcome_start)




section \<open>Facts about the whole run\<close>

lemma entered_top_append: "entered_top (xs @ ys) = entered_top xs @ entered_top ys"
  by (induction xs rule: entered_top.induct) simp_all

lemma entered_top_concat: "entered_top (concat xss) = concat (map entered_top xss)"
  by (induction xss) (simp_all add: entered_top_append)

lemma task_no_enter: "entered_top (fst (run_task_state env p ctx sid t rp inp)) = []"
  by (auto simp add: run_task_state_def run_task_def Let_def
      split: task.splits option.splits ServiceIntegrationPattern.splits prod.splits)

lemma map_no_enter:
  assumes "\<And>i item x. entered_top (fst (body i item x)) = []"
  shows "entered_top (fst (run_map sid ip rp ps body inp)) = []"
proof (cases "items_at ip inp")
  case None
  then show ?thesis by (simp add: run_map_no_items)
next
  case (Some items)
  show ?thesis
    by (auto simp add: fst_run_map [OF Some] entered_top_concat assms split: option.splits)
qed

lemma nested_no_enter:
  "entered_top (fst (exec_state env st n p ctx sid s inp)) = []"
  "p \<noteq> [] \<longrightarrow> entered_top (fst (exec_chain env st n p ctx sid inp)) = []"
proof (induction env st n p ctx sid s inp and env st n p ctx sid inp
    rule: exec_state_exec_chain.induct)
  case (1 env st n path ctx sid s inp)
  show ?case
  proof (cases "def s")
    case (sfn_Task t rp)
    then show ?thesis by (simp add: exec_state.simps task_no_enter)
  next
    case (sfn_Map ip rp mc ps it)
    show ?thesis
    proof (cases it)
      case None
      with sfn_Map show ?thesis by (simp add: exec_state.simps)
    next
      case (Some body)
      with sfn_Map 1 show ?thesis
        by (simp add: exec_state.simps map_no_enter)
    qed
  qed
next
  case (2 env st path ctx sid inp)
  show ?case by simp
next
  case (3 env st n path ctx sid inp)
  show ?case
  proof (cases "st sid")
    case None
    then show ?thesis by simp
  next
    case (Some s)
    with 3 show ?thesis
      by (auto simp add: fst_then_next entered_top_append split: sum.splits option.splits)
  qed
qed

lemma top_follows:
  "prefix (entered_top (fst (exec_chain env st n [] ctx sid inp))) (follow st n sid) \<and>
   (\<forall>out. snd (exec_chain env st n [] ctx sid inp) = Inr out \<longrightarrow>
      entered_top (fst (exec_chain env st n [] ctx sid inp)) = follow st n sid)"
proof (induction n arbitrary: sid inp)
  case 0
  show ?case by simp
next
  case (Suc n)
  show ?case
  proof (cases "st sid")
    case None
    then show ?thesis by simp
  next
    case (Some s)
    then show ?thesis
      using Suc.IH
      by (auto simp add: fst_then_next snd_then_next entered_top_append nested_no_enter(1)
          split: sum.splits option.splits)
  qed
qed

lemma follow_built:
  assumes "CDKBootstrapTask props = Inr f"
  shows "follow (states f) (Suc (Suc (Suc (Suc k)))) getAccountInfoTask_id =
           [getAccountInfoTask_id, createRootBootstrapInRegion_id, getBootstrapOutput_id,
            createBootstrapInAccount_id]"
  by (simp add: built [OF assms])

lemma collect_Inl: "collect rs = Inl e \<Longrightarrow> Inl e \<in> set rs"
  by (induction rs arbitrary: e) (auto split: sum.splits)

lemma collect_Inr: "collect rs = Inr vs \<Longrightarrow> rs = map Inr vs"
  by (induction rs arbitrary: vs) (auto split: sum.splits)

lemma task_fuel: "snd (run_task_state env p ctx sid t rp inp) \<noteq> Inl OutOfFuel"
  by (auto simp add: run_task_state_def run_task_def Let_def write_result_def
      split: task.splits option.splits ServiceIntegrationPattern.splits prod.splits sum.splits)

lemma map_fuel:
  assumes "\<And>i item x. snd (body i item x) \<noteq> Inl OutOfFuel"
  shows "snd (run_map sid ip rp ps body inp) \<noteq> Inl OutOfFuel"
proof (cases "items_at ip inp")
  case None
  then show ?thesis by (simp add: run_map_no_items)
next
  case (Some items)
  show ?thesis
  proof
    assume a: "snd (run_map sid ip rp ps body inp) = Inl OutOfFuel"
    then have "collect (map (\<lambda>(i, item).
                 case item_input ps (item_context i item) inp item of
                   None \<Rightarrow> Inl (RuntimeError sid)
                 | Some x \<Rightarrow> snd (body i item x)) (enumerate 0 items)) = Inl OutOfFuel"
      by (auto simp add: snd_run_map [OF Some] gather_def write_result_def
          split: sum.splits option.splits)
    from collect_Inl [OF this] obtain i item
      where "(case item_input ps (item_context i item) inp item of
                None \<Rightarrow> Inl (RuntimeError sid)
              | Some x \<Rightarrow> snd (body i item x)) = Inl OutOfFuel"
      by auto
    then show False
      by (cases "item_input ps (item_context i item) inp item") (simp_all add: assms)
  qed
qed

lemma then_next_fuel:
  "snd r \<noteq> Inl OutOfFuel \<Longrightarrow> snd (then_next p sid None r) \<noteq> Inl OutOfFuel"
  by (auto simp add: snd_then_next split: sum.splits)

lemma then_next_fuel_Some:
  "snd r \<noteq> Inl OutOfFuel \<Longrightarrow> (\<And>out. snd (g out) \<noteq> Inl OutOfFuel) \<Longrightarrow>
   snd (then_next p sid (Some g) r) \<noteq> Inl OutOfFuel"
  by (auto simp add: snd_then_next split: sum.splits)

lemma phases_fuel:
  assumes "CDKBootstrapTask props = Inr f"
  shows "snd (run_phase env f n getAccountInfoTask_id d) \<noteq> Inl OutOfFuel"
    and "snd (run_phase env f n getBootstrapOutput_id d) \<noteq> Inl OutOfFuel"
    and "snd (run_phase env f (Suc n) createRootBootstrapInRegion_id d) \<noteq> Inl OutOfFuel"
    and "snd (run_phase env f (Suc (Suc n)) createBootstrapInAccount_id d) \<noteq> Inl OutOfFuel"
  by (simp_all add: phase_getAccountInfo [OF assms] phase_getBootstrapOutput [OF assms]
      phase_createRootBootstrapInRegion [OF assms] phase_createBootstrapInAccount [OF assms]
      task_fuel map_fuel then_next_fuel)

lemma run_fuel:
  assumes "CDKBootstrapTask props = Inr f" and "6 \<le> n"
  shows "run env f n doc = run env f 6 doc" and "snd (run env f n doc) \<noteq> Inl OutOfFuel"
proof -
  from assms(2) obtain m where "n = 6 + m"
    using le_Suc_ex by blast
  then have n: "n = Suc (Suc (Suc (Suc (Suc (Suc m)))))" by simp
  have six: "(6::nat) = Suc (Suc (Suc (Suc (Suc (Suc 0)))))" by simp
  note phase = phase_getAccountInfo [OF assms(1)] phase_getBootstrapOutput [OF assms(1)]
    phase_createRootBootstrapInRegion [OF assms(1)] phase_createBootstrapInAccount [OF assms(1)]
  show "run env f n doc = run env f 6 doc"
    unfolding n six run_phases [OF assms(1)] by (simp only: phase)
  have "snd (run env f (Suc (Suc (Suc (Suc (Suc (Suc m)))))) doc) \<noteq> Inl OutOfFuel"
    unfolding run_phases [OF assms(1)]
    by (intro then_next_fuel_Some then_next_fuel phases_fuel [OF assms(1)])
  then show "snd (run env f n doc) \<noteq> Inl OutOfFuel" unfolding n .
qed

lemma executed_outcomes: "(p, x, r) \<in> set (executed name tr) \<Longrightarrow> r \<in> set (outcomes tr)"
  by (induction name tr rule: executed.induct) (auto split: if_splits)

section \<open>Schedules that finish, schedules that fill the caps\<close>

lemma steps_trans:
  "steps body r ls r' \<Longrightarrow> steps body r' ls' r'' \<Longrightarrow> steps body r (ls @ ls') r''"
  by (induction rule: steps.induct) (auto intro: steps.intros)

lemma steps_inner:
  "steps body r ls r' \<Longrightarrow> i < length rs \<Longrightarrow> rs ! i = r \<Longrightarrow>
   steps body (Mapping cap agg rs) (map (\<lambda>(p, k). (i # p, k)) ls) (Mapping cap agg (rs[i := r']))"
proof (induction arbitrary: rs rule: steps.induct)
  case (stop r)
  then show ?case by (auto intro: steps.stop)
next
  case (go r l r1 ls r')
  obtain p k where l: "l = (p, k)" by (cases l)
  from go.prems go.hyps(1) l
  have first: "step body (Mapping cap agg rs) (i # p, k) (Mapping cap agg (rs[i := r1]))"
    by (auto intro: step.inner)
  have "steps body (Mapping cap agg (rs[i := r1])) (map (\<lambda>(p, k). (i # p, k)) ls)
          (Mapping cap agg ((rs[i := r1])[i := r']))"
    using go.prems by (intro go.IH) simp_all
  then have "steps body (Mapping cap agg (rs[i := r1])) (map (\<lambda>(p, k). (i # p, k)) ls)
          (Mapping cap agg (rs[i := r']))"
    by simp
  with first l show ?case by (auto intro: steps.go)
qed

lemma in_flight_idle:
  "in_flight (map Finished vs @ map Waiting js) = 0"
  by (simp add: in_flight_def)

lemma under_cap_positive:
  "(case cap of None \<Rightarrow> True | Some c \<Rightarrow> 0 < c) \<Longrightarrow> under_cap cap 0"
  by (cases cap) simp_all

lemma drain:
  assumes cap: "case cap of None \<Rightarrow> True | Some c \<Rightarrow> 0 < c"
    and kids: "\<And>j. j \<in> set todo \<Longrightarrow> \<exists>ls. steps body (start j) ls (Finished (eval body j))"
  shows "\<exists>ls. steps body (Mapping cap agg (map Finished vs @ map Waiting todo)) ls
           (Mapping cap agg (map Finished (vs @ map (eval body) todo)))"
  using kids
proof (induction todo arbitrary: vs)
  case Nil
  show ?case by (auto intro: steps.stop)
next
  case (Cons j todo)
  let ?rs = "map Finished vs @ map Waiting (j # todo)"
  let ?i = "length vs"
  have i: "?i < length ?rs" and at: "?rs ! ?i = Waiting j"
    by (simp_all add: nth_append)
  have "under_cap cap (in_flight ?rs)"
    using in_flight_idle [of vs "j # todo"] under_cap_positive [OF cap] by simp
  with i at have admit: "step body (Mapping cap agg ?rs) ([?i], start_kind j)
      (Mapping cap agg (?rs[?i := start j]))"
    by (rule step.admit)
  from Cons.prems obtain ls where "steps body (start j) ls (Finished (eval body j))"
    by auto
  then have "steps body (Mapping cap agg (?rs[?i := start j]))
      (map (\<lambda>(p, k). (?i # p, k)) ls)
      (Mapping cap agg ((?rs[?i := start j])[?i := Finished (eval body j)]))"
    using i by (intro steps_inner) simp_all
  moreover have "(?rs[?i := start j])[?i := Finished (eval body j)] =
      map Finished (vs @ [eval body j]) @ map Waiting todo"
    by (simp add: list_update_append)
  ultimately have child: "steps body (Mapping cap agg (?rs[?i := start j]))
      (map (\<lambda>(p, k). (?i # p, k)) ls)
      (Mapping cap agg (map Finished (vs @ [eval body j]) @ map Waiting todo))"
    by simp
  from Cons.IH [of "vs @ [eval body j]"] Cons.prems
  obtain ls' where rest: "steps body
      (Mapping cap agg (map Finished (vs @ [eval body j]) @ map Waiting todo)) ls'
      (Mapping cap agg (map Finished ((vs @ [eval body j]) @ map (eval body) todo)))"
    by auto
  from steps.go [OF admit steps_trans [OF child rest]] show ?case
    by auto
qed

lemma results_finished: "results (map Finished vs) = Some vs"
  by (induction vs) simp_all

lemma completes: "runnable j \<Longrightarrow> \<exists>ls. steps body (start j) ls (Finished (eval body j))"
proof (induction j)
  case (Leaf a)
  have "steps body (Active a) [([], Land)] (Finished (body a))"
    by (rule steps.go [OF step.land steps.stop])
  then show ?case by auto
next
  case (Fan cap agg js)
  from Fan.prems have cap: "case cap of None \<Rightarrow> True | Some c \<Rightarrow> 0 < c"
    and "\<And>j. j \<in> set js \<Longrightarrow> runnable j"
    by (simp_all add: list_all_iff)
  with Fan.IH have kids: "\<And>j. j \<in> set js \<Longrightarrow> \<exists>ls. steps body (start j) ls (Finished (eval body j))"
    by blast
  from drain [OF cap kids, of js agg "[]"]
  obtain ls where all: "steps body (Mapping cap agg (map Waiting js)) ls
      (Mapping cap agg (map Finished (map (eval body) js)))"
    by auto
  have "step body (Mapping cap agg (map Finished (map (eval body) js))) ([], Close)
      (Finished (agg (map (eval body) js)))"
    by (intro step.close results_finished)
  then have "steps body (Mapping cap agg (map Finished (map (eval body) js))) [([], Close)]
      (Finished (agg (map (eval body) js)))"
    by (rule steps.go [OF _ steps.stop])
  from steps_trans [OF all this] show ?case by auto
qed






lemma finished_stuck: "steps body (Finished v) ls r \<Longrightarrow> ls = [] \<and> r = Finished v"
  by (induction "Finished v :: ('a, 'b) run" ls r rule: steps.induct)
    (auto dest: step_running)

lemma mapping_step:
  "step body (Mapping cap agg rs) l r \<Longrightarrow>
   (\<exists>rs'. r = Mapping cap agg rs') \<or> (l = ([], Close) \<and> (\<exists>v. r = Finished v))"
  by (cases rule: step.cases) auto

lemma last_close:
  "steps body r ls r' \<Longrightarrow> r = Mapping cap agg rs \<Longrightarrow> r' = Finished v \<Longrightarrow>
   ls \<noteq> [] \<and> last ls = ([], Close)"
proof (induction arbitrary: rs rule: steps.induct)
  case (stop r)
  then show ?case by simp
next
  case (go r l r1 ls r')
  from go.hyps(1) go.prems(1) consider rs' where "r1 = Mapping cap agg rs'"
    | v' where "l = ([], Close)" "r1 = Finished v'"
    using mapping_step by blast
  then show ?case
  proof cases
    case 1
    with go.IH [OF 1 go.prems(2)] show ?thesis by simp
  next
    case 2
    from go.hyps(2) have "steps body (Finished v') ls r'" by (simp only: 2(2))
    then have "ls = []" by (rule finished_stuck [THEN conjunct1])
    with 2 show ?thesis by simp
  qed
qed

section \<open>What the phases write and what the deployments receive\<close>

lemma task_result:
  "snd (run_task_state env p ctx sid t rp d) = Inr d' \<Longrightarrow> \<exists>v. apply_result_path rp d v = Some d'"
  by (auto simp add: run_task_state_def run_task_def Let_def write_result_def
      split: task.splits option.splits ServiceIntegrationPattern.splits prod.splits sum.splits)

lemma invoke_result:
  "snd (run_task_state env p ctx sid (InvokeFunction fp tmpl) rp d) = Inr d' \<Longrightarrow>
   \<exists>payload v. resolve ctx d tmpl = Some payload \<and> invoke env (fn_handler fp) payload = Inr v \<and>
     apply_result_path rp d v = Some d'"
  by (auto simp add: run_task_state_def run_task_def Let_def write_result_def
      split: option.splits sum.splits)

lemma map_result:
  "snd (run_map sid ip rp ps body d) = Inr d' \<Longrightarrow>
   \<exists>outs. apply_result_path rp d (JArr outs) = Some d'"
  by (auto simp add: run_map_def Let_def gather_def write_result_def
      split: option.splits sum.splits)

lemma written_field:
  assumes "(case d of JObj kvs \<Rightarrow> Some (JObj (put k v kvs)) | _ \<Rightarrow> None) = Some d'"
  shows "field k d' = Some v" and "k' \<noteq> k \<Longrightarrow> field k' d' = field k' d"
  using assms by (cases d; auto simp add: field_put)+

lemma aggregation_payload:
  "resolve ctx d getBootstrapOutput_functionPayload = Some payload \<Longrightarrow>
   field ''stackOutputs'' payload = field ''bootstrap'' d \<and> field ''bootstrap'' d \<noteq> None"
  by (auto simp add: getBootstrapOutput_functionPayload_def path_defs split: option.splits)

lemma hub_item_resolved:
  "get_path [''operationsAccount'', ''id''] d = Some a \<Longrightarrow>
   get_path [''operationsAccount'', ''ou''] d = Some ou \<Longrightarrow>
   item_input (Some (createRootBootstrapInRegion_parameters props)) (item_context i item) d item =
     Some (hub_item props a ou item)"
  by (simp add: hub_item_input hub_item_def)

lemma hub_input_resolved:
  "resolve ctx (hub_item props a ou r) (bootstrapOpsTask_input props) = Some (hub_input props a ou r)"
  by (simp add: hub_item_def hub_input_def hub_task_input)

lemma account_item_resolved:
  "get_path [''bootstrap'', ''outputs''] d = Some os \<Longrightarrow>
   item_input (Some (createBootstrapInAccount_parameters props)) (item_context i item) d item =
     Some (account_item props item os)"
  by (simp add: account_item_input account_item_def)

lemma region_item_resolved:
  "item_input (Some (createBootstrapInRegion_parameters props)) (item_context j item)
     (account_item props a os) item = Some (region_item props a item)"
  by (simp add: account_item_def region_item_def region_item_input)

lemma leaf_input_resolved:
  "resolve ctx (region_item props a item) (bootstrapTask_input props) =
     (case field ''bucketDomain'' item of
        None \<Rightarrow> None
      | Some b \<Rightarrow>
          (case field ''region'' item of
             None \<Rightarrow> None
           | Some r \<Rightarrow> Some (leaf_input props a b r)))"
  by (simp add: region_item_def leaf_input_def leaf_task_input split: option.splits)

lemma items_at_account_item:
  "items_at (Some ''$.bootstrapRegions'') (account_item props a os) =
     (case os of JArr items \<Rightarrow> Some items | _ \<Rightarrow> None)"
  by (simp add: items_at_bootstrapRegions account_item_def split: json.splits)

lemma executed_append: "executed name (xs @ ys) = executed name xs @ executed name ys"
  by (induction name xs rule: executed.induct) simp_all

lemma executed_concat: "executed name (concat xss) = concat (map (executed name) xss)"
  by (induction xss) (simp_all add: executed_append)



lemma sync_events:
  "fst (run_task_state env p ctx sid (StartExecution sm SYNC tmpl) rp y) =
     (case resolve ctx y tmpl of
        None \<Rightarrow> []
      | Some x \<Rightarrow>
          [Executed p (stateMachineName sm) x (runSync env (stateMachineName sm) x)])"
  by (simp add: run_task_state_def run_task_def Let_def split: option.splits)

lemma sync_result:
  "snd (run_task_state env p ctx sid (StartExecution sm SYNC tmpl) rp y) =
     (case resolve ctx y tmpl of
        None \<Rightarrow> Inl (RuntimeError sid)
      | Some x \<Rightarrow>
          (case runSync env (stateMachineName sm) x of
             Inl e \<Rightarrow> Inl (ExecutionError e)
           | Inr v \<Rightarrow> write_result sid rp y v))"
  by (simp add: run_task_state_def run_task_def Let_def split: option.splits sum.splits)

lemma executed_then_next:
  "executed name (fst (then_next p sid None r)) = executed name (fst r)"
  by (simp add: fst_then_next executed_append split: sum.splits)


lemma executed_run_map:
  "items_at ip inp = Some items \<Longrightarrow>
   executed name (fst (run_map sid ip rp ps body inp)) =
     concat (map (\<lambda>(i, item).
                    case item_input ps (item_context i item) inp item of
                      None \<Rightarrow> []
                    | Some x \<Rightarrow> executed name (fst (body i item x)))
                 (enumerate 0 items))"
  by (auto simp add: fst_run_map executed_concat comp_def intro!: arg_cong [where f = concat]
      split: option.splits)


text \<open>The leaf deployments of one account, and of all accounts.\<close>

lemma executed_account:
  "executed (stateMachineName (bootstrapStateMachine props))
     (fst (run_map createBootstrapInRegion_id (Some ''$.bootstrapRegions'') (Some ''DISCARD'')
        (Some (createBootstrapInRegion_parameters props))
        (\<lambda>j item y.
           then_next [i, j] bootstrapTask_id None
             (run_task_state env [i, j] (item_context j item) bootstrapTask_id
                (StartExecution (bootstrapStateMachine props) SYNC (bootstrapTask_input props))
                (Some ''DISCARD'') y))
        (account_item props a (JArr os)))) =
   concat (map (\<lambda>(j, item).
                  case field ''bucketDomain'' item of
                    None \<Rightarrow> []
                  | Some b \<Rightarrow>
                      (case field ''region'' item of
                         None \<Rightarrow> []
                       | Some r \<Rightarrow>
                           [([i, j], leaf_input props a b r,
                             runSync env (stateMachineName (bootstrapStateMachine props))
                               (leaf_input props a b r))]))
               (enumerate 0 os))"
  by (auto simp add: executed_run_map items_at_account_item region_item_resolved
      executed_then_next sync_events leaf_input_resolved
      intro!: arg_cong [where f = concat] split: option.splits)

lemma executed_accounts:
  assumes "CDKBootstrapTask props = Inr f"
    and "get_path [''bootstrap'', ''accounts''] d = Some (JArr as)"
    and "get_path [''bootstrap'', ''outputs''] d = Some (JArr os)"
  shows "executed (stateMachineName (bootstrapStateMachine props))
           (fst (run_phase env f (Suc (Suc n)) createBootstrapInAccount_id d)) =
         concat (map (\<lambda>(i, a).
           concat (map (\<lambda>(j, item).
                  case field ''bucketDomain'' item of
                    None \<Rightarrow> []
                  | Some b \<Rightarrow>
                      (case field ''region'' item of
                         None \<Rightarrow> []
                       | Some r \<Rightarrow>
                           [([i, j], leaf_input props a b r,
                             runSync env (stateMachineName (bootstrapStateMachine props))
                               (leaf_input props a b r))]))
               (enumerate 0 os)))
           (enumerate 0 as))"
  unfolding phase_createBootstrapInAccount [OF assms(1)]
  by (simp add: executed_run_map items_at_accounts assms(2,3) account_item_resolved
      executed_then_next executed_account del: get_path.simps)



lemma executed_not_accounts:
  assumes "CDKBootstrapTask props = Inr f"
    and "\<nexists>as. get_path [''bootstrap'', ''accounts''] d = Some (JArr as)"
  shows "executed name (fst (run_phase env f (Suc (Suc n)) createBootstrapInAccount_id d)) = []"
proof -
  from assms(2) have "items_at (Some ''$.bootstrap.accounts'') d = None"
    by (auto simp add: items_at_accounts simp del: get_path.simps split: option.splits json.splits)
  then show ?thesis
    unfolding phase_createBootstrapInAccount [OF assms(1)] by (simp add: run_map_no_items)
qed

lemma executed_not_outputs:
  assumes "CDKBootstrapTask props = Inr f"
    and "\<nexists>os. get_path [''bootstrap'', ''outputs''] d = Some (JArr os)"
  shows "executed name (fst (run_phase env f (Suc (Suc n)) createBootstrapInAccount_id d)) = []"
proof (cases "items_at (Some ''$.bootstrap.accounts'') d")
  case None
  then show ?thesis
    unfolding phase_createBootstrapInAccount [OF assms(1)] by (simp add: run_map_no_items)
next
  case (Some items)
  show ?thesis
  proof (cases "get_path [''bootstrap'', ''outputs''] d")
    case None
    then show ?thesis
      unfolding phase_createBootstrapInAccount [OF assms(1)]
      by (simp add: executed_run_map [OF Some] account_item_input del: get_path.simps)
  next
    case (Some os)
    with assms(2) have "items_at (Some ''$.bootstrapRegions'') (account_item props a os) = None" for a
      by (cases os) (simp_all add: items_at_account_item)
    with Some \<open>items_at (Some ''$.bootstrap.accounts'') d = Some items\<close> show ?thesis
      unfolding phase_createBootstrapInAccount [OF assms(1)]
      by (simp add: executed_run_map account_item_resolved executed_then_next run_map_no_items
          del: get_path.simps)
  qed
qed

lemma those_map_Some: "those (map (\<lambda>x. Some (g x)) xs) = Some (map g xs)"
  by (induction xs) simp_all

lemma fanout_hub:
  assumes "CDKBootstrapTask props = Inr f"
    and "field ''regions'' d = Some (JArr rs)"
    and "get_path [''operationsAccount'', ''id''] d = Some a"
    and "get_path [''operationsAccount'', ''ou''] d = Some ou"
  shows "fanout (states f) (Suc (Suc n)) ctx createRootBootstrapInRegion_id d =
           Some (Fan (Some 20) (gather createRootBootstrapInRegion_id (Some ''$.bootstrap'') d)
                   (map (\<lambda>(i, r). Leaf (bootstrapOpsTask_id, item_context i r, hub_item props a ou r))
                      (enumerate 0 rs)))"
  using assms(2-4)
  by (simp add: built [OF assms(1)] items_at_regions hub_item_resolved bootstrapOpsTask_def
      those_map_Some case_prod_unfold del: get_path.simps)


lemma leaves_flat: "sum_list (map leaves (map (\<lambda>x. Leaf (g x)) xs)) = length xs"
  by (induction xs) simp_all


section \<open>The example, evaluated\<close>

lemma example_fragment:
  "CDKBootstrapTask example_props = Inr f \<Longrightarrow> example_task = f"
  by (simp add: example_task_def)

lemma example_phase1:
  "snd (run_phase example_env example_task 0 getAccountInfoTask_id example_doc) = Inr after_lookup"
  by code_simp

lemma example_phase2:
  "snd (run_phase example_env example_task (Suc 0) createRootBootstrapInRegion_id after_lookup) =
     Inr after_hub"
  by code_simp

lemma example_phase3:
  "snd (run_phase example_env example_task 0 getBootstrapOutput_id after_hub) =
     Inr after_aggregation"
  by code_simp

lemma example_phase4:
  "snd (run_phase example_env example_task (Suc (Suc 0)) createBootstrapInAccount_id
     after_aggregation) = Inr after_aggregation"
  by code_simp

lemma example_leaf:
  "([1, 0], leaf_input example_props (JStr ''222'') (JStr ''b1'') (JStr ''us-east-1''),
    Inr (JObj [(''status'', JStr ''CREATE_COMPLETE'')])) \<in>
   set (executed (stateMachineName (bootstrapStateMachine example_props))
          (fst (run_phase example_env example_task (Suc (Suc 0)) createBootstrapInAccount_id
                  after_aggregation)))"
  by code_simp

section \<open>The fan-outs of the two phases\<close>









lemma schedule_counts:
  assumes "steps body (start (Fan cap agg js)) ls (Finished v)"
  shows "count_kind Launch ls = leaves (Fan cap agg js)"
    and "count_kind Land ls = leaves (Fan cap agg js)"
    and "last ls = ([], Close)"
    and "v = eval body (Fan cap agg js)"
proof -
  from steps_unlaunched [OF assms] unlaunched_start [of "Fan cap agg js"]
  show "count_kind Launch ls = leaves (Fan cap agg js)" by simp
  from steps_unlanded [OF assms] unlanded_start [of "Fan cap agg js"]
  show "count_kind Land ls = leaves (Fan cap agg js)" by simp
  from last_close [OF assms, of cap agg "map Waiting js" v]
  show "last ls = ([], Close)" by simp
  from assms show "v = eval body (Fan cap agg js)" by (rule steps_finished_eval)
qed




lemma hub_leaf:
  "snd (then_next p bootstrapOpsTask_id None
          (run_task_state env p' ctx bootstrapOpsTask_id
             (StartExecution (bootstrapMasterStateMachine props) SYNC
                (bootstrapOpsTask_input props))
             (Some ''$.opsBootstrapOutput'') (hub_item props a ou r))) =
   (case runSync env (stateMachineName (bootstrapMasterStateMachine props))
           (hub_input props a ou r) of
      Inl e \<Rightarrow> Inl (ExecutionError e)
    | Inr v \<Rightarrow> Inr (hub_output props a ou r v))"
  unfolding snd_then_next sync_result hub_input_resolved
  by (simp add: write_result_def result_path_opsBootstrapOutput hub_item_def hub_output_def
      split: sum.splits)

lemma hub_leaf_result:
  assumes "CDKBootstrapTask props = Inr f"
  shows "leaf_result env (states f) (Suc m) (bootstrapOpsTask_id, ctx, hub_item props a ou r) =
     (case runSync env (stateMachineName (bootstrapMasterStateMachine props))
             (hub_input props a ou r) of
        Inl e \<Rightarrow> Inl (ExecutionError e)
      | Inr v \<Rightarrow> Inr (hub_output props a ou r v))"
  unfolding leaf_result_def prod.case exec_bootstrapOpsTask [OF assms] by (rule hub_leaf)

lemma hub_phase_result:
  assumes "CDKBootstrapTask props = Inr f"
    and "field ''regions'' d = Some (JArr rs)"
    and "get_path [''operationsAccount'', ''id''] d = Some a"
    and "get_path [''operationsAccount'', ''ou''] d = Some ou"
  shows "snd (run_phase env f (Suc m) createRootBootstrapInRegion_id d) =
           gather createRootBootstrapInRegion_id (Some ''$.bootstrap'') d
             (map (\<lambda>(i, r).
                     case runSync env (stateMachineName (bootstrapMasterStateMachine props))
                            (hub_input props a ou r) of
                       Inl e \<Rightarrow> Inl (ExecutionError e)
                     | Inr v \<Rightarrow> Inr (hub_output props a ou r v))
                (enumerate 0 rs))"
  unfolding phase_createRootBootstrapInRegion [OF assms(1)]
  using assms(2-4)
  by (simp add: snd_run_map items_at_regions hub_item_resolved hub_leaf del: get_path.simps)

lemma hub_job_value:
  assumes "CDKBootstrapTask props = Inr f"
  shows "eval (leaf_result env (states f) (Suc m))
           (Fan cap (gather createRootBootstrapInRegion_id (Some ''$.bootstrap'') d)
              (map (\<lambda>(i, r). Leaf (bootstrapOpsTask_id, item_context i r, hub_item props a ou r))
                 (enumerate 0 rs))) =
         gather createRootBootstrapInRegion_id (Some ''$.bootstrap'') d
             (map (\<lambda>(i, r).
                     case runSync env (stateMachineName (bootstrapMasterStateMachine props))
                            (hub_input props a ou r) of
                       Inl e \<Rightarrow> Inl (ExecutionError e)
                     | Inr v \<Rightarrow> Inr (hub_output props a ou r v))
                (enumerate 0 rs))"
  by (simp add: comp_def case_prod_unfold hub_leaf_result [OF assms])

lemma gather_Inr:
  "gather sid rp d rs = Inr out \<Longrightarrow>
   \<exists>outs. rs = map Inr outs \<and> apply_result_path rp d (JArr outs) = Some out"
  by (auto simp add: gather_def write_result_def dest: collect_Inr split: sum.splits option.splits)

section \<open>Discarded results\<close>

lemma discard_map: "snd (run_map sid ip (Some ''DISCARD'') ps body d) = Inr d' \<Longrightarrow> d' = d"
  by (auto dest!: map_result simp add: result_path_discard)

lemma discard_task:
  "snd (run_task_state env p ctx sid t (Some ''DISCARD'') y) = Inr y' \<Longrightarrow> y' = y"
  by (auto dest!: task_result simp add: result_path_discard)

lemma then_next_last: "snd (then_next p sid None r) = snd r"
  by (simp add: snd_then_next split: sum.splits)

lemma phase_failure:
  "Inl e \<in> set (outcomes (fst (run_phase env f n sid d))) \<Longrightarrow> isl (snd (run_phase env f n sid d))"
  using failure_propagates(1) [of e env "states f" n "[]" "JObj []" sid _ d]
  by (cases "states f sid") (simp_all add: run_phase_def)

lemma fanout_accounts_shape:
  assumes "CDKBootstrapTask props = Inr f"
    and "fanout (states f) (Suc n) ctx createBootstrapInAccount_id d = Some job"
  shows "\<exists>js. job = Fan (Some 10) (gather createBootstrapInAccount_id (Some ''DISCARD'') d) js"
  using assms(2) by (auto simp add: built(5) [OF assms(1)] split: option.splits)

lemma then_next_Inr:
  "snd (then_next p sid (Some g) r) = Inr out \<Longrightarrow> \<exists>d. snd r = Inr d \<and> snd (g d) = Inr out"
  by (auto simp add: snd_then_next split: sum.splits)

lemma run_success:
  assumes "CDKBootstrapTask props = Inr f" and "6 \<le> n"
    and "snd (run env f n doc) = Inr out"
  shows "\<exists>d1 d2 d3.
           snd (run_phase env f 0 getAccountInfoTask_id doc) = Inr d1 \<and>
           snd (run_phase env f (Suc 0) createRootBootstrapInRegion_id d1) = Inr d2 \<and>
           snd (run_phase env f 0 getBootstrapOutput_id d2) = Inr d3 \<and>
           snd (run_phase env f (Suc (Suc 0)) createBootstrapInAccount_id d3) = Inr out"
proof -
  have six: "(6::nat) = Suc (Suc (Suc (Suc (Suc (Suc 0)))))" by simp
  from assms(3) have "snd (run env f 6 doc) = Inr out"
    by (simp only: run_fuel(1) [OF assms(1,2)])
  then have all: "snd (then_next [] getAccountInfoTask_id
             (Some (\<lambda>d1.
                then_next [] createRootBootstrapInRegion_id
                  (Some (\<lambda>d2.
                     then_next [] getBootstrapOutput_id
                       (Some (\<lambda>d3.
                          then_next [] createBootstrapInAccount_id None
                            (run_phase env f (Suc (Suc 0)) createBootstrapInAccount_id d3)))
                       (run_phase env f (Suc (Suc (Suc 0))) getBootstrapOutput_id d2)))
                  (run_phase env f (Suc (Suc (Suc (Suc 0)))) createRootBootstrapInRegion_id d1)))
             (run_phase env f (Suc (Suc (Suc (Suc (Suc 0))))) getAccountInfoTask_id doc)) = Inr out"
    unfolding six run_phases [OF assms(1)] .
  from then_next_Inr [OF all] obtain d1
    where p1: "snd (run_phase env f (Suc (Suc (Suc (Suc (Suc 0))))) getAccountInfoTask_id doc) =
        Inr d1"
      and r1: "snd (then_next [] createRootBootstrapInRegion_id
                  (Some (\<lambda>d2.
                     then_next [] getBootstrapOutput_id
                       (Some (\<lambda>d3.
                          then_next [] createBootstrapInAccount_id None
                            (run_phase env f (Suc (Suc 0)) createBootstrapInAccount_id d3)))
                       (run_phase env f (Suc (Suc (Suc 0))) getBootstrapOutput_id d2)))
                  (run_phase env f (Suc (Suc (Suc (Suc 0)))) createRootBootstrapInRegion_id d1)) =
        Inr out"
    by blast
  from then_next_Inr [OF r1] obtain d2
    where p2: "snd (run_phase env f (Suc (Suc (Suc (Suc 0)))) createRootBootstrapInRegion_id d1) =
        Inr d2"
      and r2: "snd (then_next [] getBootstrapOutput_id
                       (Some (\<lambda>d3.
                          then_next [] createBootstrapInAccount_id None
                            (run_phase env f (Suc (Suc 0)) createBootstrapInAccount_id d3)))
                       (run_phase env f (Suc (Suc (Suc 0))) getBootstrapOutput_id d2)) = Inr out"
    by blast
  from then_next_Inr [OF r2] obtain d3
    where p3: "snd (run_phase env f (Suc (Suc (Suc 0))) getBootstrapOutput_id d2) = Inr d3"
      and r3: "snd (then_next [] createBootstrapInAccount_id None
                 (run_phase env f (Suc (Suc 0)) createBootstrapInAccount_id d3)) = Inr out"
    by blast
  from p1 have q1: "snd (run_phase env f 0 getAccountInfoTask_id doc) = Inr d1"
    by (simp only: phase_getAccountInfo [OF assms(1)])
  from p2 have q2: "snd (run_phase env f (Suc 0) createRootBootstrapInRegion_id d1) = Inr d2"
    by (simp only: phase_createRootBootstrapInRegion [OF assms(1)])
  from p3 have q3: "snd (run_phase env f 0 getBootstrapOutput_id d2) = Inr d3"
    by (simp only: phase_getBootstrapOutput [OF assms(1)])
  from r3 have q4: "snd (run_phase env f (Suc (Suc 0)) createBootstrapInAccount_id d3) = Inr out"
    by (simp only: then_next_last)
  from q1 q2 q3 q4 show ?thesis by blast
qed

section \<open>The events before the account phase\<close>

lemma sm_names_differ:
  "stateMachineName (bootstrapMasterStateMachine props) \<noteq>
   stateMachineName (bootstrapStateMachine props)"
  by (simp add: bootstrapMasterStateMachine_def bootstrapStateMachine_def)

lemma invoke_events:
  "fst (run_task_state env p ctx sid (InvokeFunction fp tmpl) rp d) =
     (case resolve ctx d tmpl of
        None \<Rightarrow> []
      | Some payload \<Rightarrow>
          [Invoked p (fn_handler fp) payload (invoke env (fn_handler fp) payload)])"
  by (simp add: run_task_state_def run_task_def Let_def split: option.splits)

lemma invoke_success:
  "snd (run_task_state env p ctx sid (InvokeFunction fp tmpl) rp d) = Inr d' \<Longrightarrow>
   \<exists>payload v. fst (run_task_state env p ctx sid (InvokeFunction fp tmpl) rp d) =
       [Invoked p (fn_handler fp) payload (Inr v)] \<and>
     apply_result_path rp d v = Some d'"
  by (auto simp add: run_task_state_def run_task_def Let_def write_result_def
      split: option.splits sum.splits)

lemma invoke_not_account:
  "e \<in> set (fst (run_task_state env p ctx sid (InvokeFunction fp tmpl) rp d)) \<Longrightarrow>
   \<not> account_phase_event props e"
  by (auto simp add: invoke_events split: option.splits)

lemma then_next_events:
  "e \<in> set (fst (then_next p sid None r)) \<Longrightarrow>
   e = Enter p sid \<or> e \<in> set (fst r) \<or> (\<exists>ok. e = Exit p sid ok)"
  by (auto simp add: fst_then_next split: sum.splits)

lemma sync_not_account:
  "e \<in> set (fst (run_task_state env p ctx sid
       (StartExecution (bootstrapMasterStateMachine props) SYNC tmpl) rp y)) \<Longrightarrow>
   \<not> account_phase_event props e"
  by (auto simp add: sync_events sm_names_differ split: option.splits)

lemma hub_not_account:
  assumes "CDKBootstrapTask props = Inr f"
    and "e \<in> set (fst (run_phase env f (Suc n) createRootBootstrapInRegion_id d))"
  shows "\<not> account_phase_event props e"
proof (cases "items_at (Some ''$.regions'') d")
  case None
  with assms(2) show ?thesis
    unfolding phase_createRootBootstrapInRegion [OF assms(1)] by (simp add: run_map_no_items)
next
  case (Some items)
  from assms(2) show ?thesis
    unfolding phase_createRootBootstrapInRegion [OF assms(1)] fst_run_map [OF Some]
    by (auto simp add: ids_neq split: option.splits
        dest!: then_next_events dest: sync_not_account)
qed

lemma run_trace:
  assumes "CDKBootstrapTask props = Inr f" and "6 \<le> n"
  shows "(\<forall>e\<in>set (fst (run env f n doc)). \<not> account_phase_event props e) \<or>
         (\<exists>pre payload v d3.
            fst (run env f n doc) =
              pre @ [Invoked [] ''index.getBootstrapOutput'' payload (Inr v),
                     Exit [] getBootstrapOutput_id True] @
              fst (exec_chain env (states f) (Suc (Suc (Suc 0))) [] (JObj [])
                     createBootstrapInAccount_id d3) \<and>
            (\<forall>e\<in>set pre. \<not> account_phase_event props e) \<and>
            field ''bootstrap'' d3 = Some v)"
proof -
  have six: "(6::nat) = Suc (Suc (Suc (Suc (Suc (Suc 0)))))" by simp
  let ?r1 = "run_phase env f (Suc (Suc (Suc (Suc (Suc 0))))) getAccountInfoTask_id doc"
  let ?r2 = "\<lambda>d1. run_phase env f (Suc (Suc (Suc (Suc 0)))) createRootBootstrapInRegion_id d1"
  let ?r3 = "\<lambda>d2. run_phase env f (Suc (Suc (Suc 0))) getBootstrapOutput_id d2"
  let ?r4 = "\<lambda>d3. fst (exec_chain env (states f) (Suc (Suc (Suc 0))) [] (JObj [])
                     createBootstrapInAccount_id d3)"
  have tr: "fst (run env f n doc) =
      Enter [] getAccountInfoTask_id # fst ?r1 @
        (case snd ?r1 of
           Inl e \<Rightarrow> [Exit [] getAccountInfoTask_id False]
         | Inr d1 \<Rightarrow>
             Exit [] getAccountInfoTask_id True #
             Enter [] createRootBootstrapInRegion_id # fst (?r2 d1) @
               (case snd (?r2 d1) of
                  Inl e \<Rightarrow> [Exit [] createRootBootstrapInRegion_id False]
                | Inr d2 \<Rightarrow>
                    Exit [] createRootBootstrapInRegion_id True #
                    Enter [] getBootstrapOutput_id # fst (?r3 d2) @
                      (case snd (?r3 d2) of
                         Inl e \<Rightarrow> [Exit [] getBootstrapOutput_id False]
                       | Inr d3 \<Rightarrow> Exit [] getBootstrapOutput_id True # ?r4 d3)))"
    unfolding run_fuel(1) [OF assms] six run_phases [OF assms(1)] exec_top(1) [OF assms(1)]
    by (simp add: fst_then_next split: sum.splits)
  have e1: "\<not> account_phase_event props e" if "e \<in> set (fst ?r1)" for e
    using that unfolding phase_getAccountInfo [OF assms(1)] by (rule invoke_not_account)
  have e2: "\<not> account_phase_event props e" if "e \<in> set (fst (?r2 d1))" for e d1
    using that by (rule hub_not_account [OF assms(1)])
  have e3: "\<not> account_phase_event props e" if "e \<in> set (fst (?r3 d2))" for e d2
    using that unfolding phase_getBootstrapOutput [OF assms(1)] by (rule invoke_not_account)
  show ?thesis
  proof (cases "snd ?r1")
    case (Inl e)
    then show ?thesis using e1 by (auto simp add: tr ids_neq)
  next
    case d1: (Inr d1)
    show ?thesis
    proof (cases "snd (?r2 d1)")
      case (Inl e)
      with d1 show ?thesis using e1 e2 by (auto simp add: tr ids_neq)
    next
      case d2: (Inr d2)
      show ?thesis
      proof (cases "snd (?r3 d2)")
        case (Inl e)
        with d1 d2 show ?thesis using e1 e2 e3 by (auto simp add: tr ids_neq)
      next
        case d3: (Inr d3)
        from d3 obtain payload v
          where ev: "fst (?r3 d2) = [Invoked [] ''index.getBootstrapOutput'' payload (Inr v)]"
            and w: "apply_result_path (Some ''$.bootstrap'') d2 v = Some d3"
          unfolding phase_getBootstrapOutput [OF assms(1)]
          by (fastforce dest: invoke_success)
        from w have "(case d2 of JObj kvs \<Rightarrow> Some (JObj (put ''bootstrap'' v kvs)) | _ \<Rightarrow> None) = Some d3"
          by (simp only: result_path_bootstrap)
        then have fld: "field ''bootstrap'' d3 = Some v" by (rule written_field(1))
        let ?pre = "Enter [] getAccountInfoTask_id # fst ?r1 @
            Exit [] getAccountInfoTask_id True #
            Enter [] createRootBootstrapInRegion_id # fst (?r2 d1) @
            Exit [] createRootBootstrapInRegion_id True #
            [Enter [] getBootstrapOutput_id]"
        have "fst (run env f n doc) =
            ?pre @ [Invoked [] ''index.getBootstrapOutput'' payload (Inr v),
                    Exit [] getBootstrapOutput_id True] @ ?r4 d3"
          by (simp add: tr d1 d2 d3 ev)
        moreover have "\<forall>e\<in>set ?pre. \<not> account_phase_event props e"
          using e1 e2 by (auto simp add: ids_neq)
        ultimately show ?thesis using fld by blast
      qed
    qed
  qed
qed

section \<open>The example, scheduled\<close>

lemma example_lookup_fields:
  "field ''regions'' after_lookup = Some (JArr [JStr ''us-east-1'', JStr ''us-west-2''])"
  "get_path [''operationsAccount'', ''id''] after_lookup = Some (JStr ''999'')"
  "get_path [''operationsAccount'', ''ou''] after_lookup = Some (JStr ''core'')"
  by (simp_all add: after_lookup_def example_fields_def)


lemma example_hub_schedule:
  assumes "CDKBootstrapTask example_props = Inr f"
  shows "\<exists>job ls.
           fanout (states f) (Suc (Suc 0)) (JObj []) createRootBootstrapInRegion_id after_lookup =
             Some job \<and>
           steps (leaf_result example_env (states f) (Suc 0)) (start job) ls
             (Finished (Inr after_hub))"
proof -
  note fields = example_lookup_fields
  let ?job = "Fan (Some 20)
      (gather createRootBootstrapInRegion_id (Some ''$.bootstrap'') after_lookup)
      (map (\<lambda>(i, r). Leaf (bootstrapOpsTask_id, item_context i r,
                              hub_item example_props (JStr ''999'') (JStr ''core'') r))
         (enumerate 0 [JStr ''us-east-1'', JStr ''us-west-2'']))"
  have job: "fanout (states f) (Suc (Suc 0)) (JObj []) createRootBootstrapInRegion_id
      after_lookup = Some ?job"
    by (rule fanout_hub [OF assms fields])
  have "eval (leaf_result example_env (states f) (Suc 0)) ?job =
      snd (run_phase example_env f (Suc 0) createRootBootstrapInRegion_id after_lookup)"
    by (simp only: hub_job_value [OF assms] hub_phase_result [OF assms fields])
  also have "\<dots> = Inr after_hub"
    using example_phase2 by (simp only: example_fragment [OF assms])
  finally have val: "eval (leaf_result example_env (states f) (Suc 0)) ?job = Inr after_hub" .
  have "runnable ?job" by (simp add: list_all_iff)
  from completes [OF this, of "leaf_result example_env (states f) (Suc 0)"] obtain ls
    where "steps (leaf_result example_env (states f) (Suc 0)) (start ?job) ls
      (Finished (Inr after_hub))"
    unfolding val by blast
  with job show ?thesis by blast
qed

lemma example_account_value:
  "case fanout (states example_task) (Suc (Suc (Suc 0))) (JObj []) createBootstrapInAccount_id
          after_aggregation of
     None \<Rightarrow> False
   | Some job \<Rightarrow>
       runnable job \<and>
       eval (leaf_result example_env (states example_task) (Suc 0)) job = Inr after_aggregation"
  by code_simp

lemma example_account_schedule:
  assumes "CDKBootstrapTask example_props = Inr f"
  shows "\<exists>job ls.
           fanout (states f) (Suc (Suc (Suc 0))) (JObj []) createBootstrapInAccount_id
             after_aggregation = Some job \<and>
           steps (leaf_result example_env (states f) (Suc 0)) (start job) ls
             (Finished (Inr after_aggregation))"
proof -
  from example_account_value obtain job
    where job: "fanout (states f) (Suc (Suc (Suc 0))) (JObj []) createBootstrapInAccount_id
        after_aggregation = Some job"
      and ok: "runnable job"
      and val: "eval (leaf_result example_env (states f) (Suc 0)) job = Inr after_aggregation"
    unfolding example_fragment [OF assms] by (auto split: option.splits)
  from completes [OF ok, of "leaf_result example_env (states f) (Suc 0)"] obtain ls
    where "steps (leaf_result example_env (states f) (Suc 0)) (start job) ls
      (Finished (Inr after_aggregation))"
    unfolding val by blast
  with job show ?thesis by blast
qed

lemma example_outcomes:
  "outcomes (fst (run_phase example_env example_task (Suc (Suc 0)) createBootstrapInAccount_id
     after_aggregation)) =
   [Inr (JObj [(''status'', JStr ''CREATE_COMPLETE'')]),
    Inr (JObj [(''status'', JStr ''CREATE_COMPLETE'')]),
    Inr (JObj [(''status'', JStr ''CREATE_COMPLETE'')]),
    Inr (JObj [(''status'', JStr ''CREATE_COMPLETE'')])]"
  by code_simp

lemma example_region_map:
  "snd (exec_chain example_env (states example_task) (Suc (Suc 0)) [0] (JObj [])
          createBootstrapInRegion_id
          (account_item example_props (JStr ''111'')
             (JArr [JObj [(''region'', JStr ''us-east-1''), (''bucketDomain'', JStr ''b1'')]]))) =
   Inr (account_item example_props (JStr ''111'')
          (JArr [JObj [(''region'', JStr ''us-east-1''), (''bucketDomain'', JStr ''b1'')]]))"
  by code_simp

lemma example_deployment:
  "snd (exec_chain example_env (states example_task) (Suc 0) [0, 0] (JObj [])
          bootstrapTask_id
          (region_item example_props (JStr ''111'')
             (JObj [(''region'', JStr ''us-east-1''), (''bucketDomain'', JStr ''b1'')]))) =
   Inr (region_item example_props (JStr ''111'')
          (JObj [(''region'', JStr ''us-east-1''), (''bucketDomain'', JStr ''b1'')]))"
  by code_simp

lemma example_run:
  "snd (run example_env example_task 6 example_doc) = Inr after_aggregation"
  by code_simp

lemma example_trace:
  "14 < length (fst (run example_env example_task 6 example_doc)) \<and>
   fst (run example_env example_task 6 example_doc) ! 14 = Enter [] createBootstrapInAccount_id"
  by code_simp

section \<open>The claims\<close>

text \<open>
  C9. The optional properties \<open>waitSeconds\<close> and \<open>functionPayload\<close> have no effect: two
  property sets that agree on the eight other properties construct the same task (the same
  states, parameters, caps, wiring and role), whatever their \<open>waitSeconds\<close> and
  \<open>functionPayload\<close>.
\<close>

theorem props_noninterference:
  assumes "role p = role q" and "lambdaCode p = lambdaCode q"
    and "acceleratorPrefix p = acceleratorPrefix q" and "s3BucketName p = s3BucketName q"
    and "operationsBootstrapObjectKey p = operationsBootstrapObjectKey q"
    and "accountBootstrapObjectKey p = accountBootstrapObjectKey q"
    and "assumeRoleName p = assumeRoleName q" and "bootStrapStackName p = bootStrapStackName q"
  shows "CDKBootstrapTask p = CDKBootstrapTask q"
  using assms
  by (simp add: CDKBootstrapTask_def getAccountInfoTask_def createRootBootstrapInRegion_def
      bootstrapOpsTask_def getBootstrapOutput_def createBootstrapInAccount_def
      createBootstrapInRegion_def bootstrapTask_def grantedRole_def
      bootstrapMasterStateMachine_def bootstrapStateMachine_def
      createRootBootstrapInRegion_parameters_def bootstrapOpsTask_input_def
      createBootstrapInAccount_parameters_def createBootstrapInRegion_parameters_def
      bootstrapTask_input_def)

theorem props_noninterference_witness:
  "waitSeconds (example_props\<lparr>functionPayload := Some (JObj [(''dryRun'', JBool True)]),
                               waitSeconds := Some 30\<rparr>) \<noteq> waitSeconds example_props \<and>
   functionPayload (example_props\<lparr>functionPayload := Some (JObj [(''dryRun'', JBool True)]),
                                    waitSeconds := Some 30\<rparr>) \<noteq> functionPayload example_props \<and>
   CDKBootstrapTask (example_props\<lparr>functionPayload := Some (JObj [(''dryRun'', JBool True)]),
                                     waitSeconds := Some 30\<rparr>) =
   CDKBootstrapTask example_props"
  using props_noninterference
    [of "example_props\<lparr>functionPayload := Some (JObj [(''dryRun'', JBool True)]),
                        waitSeconds := Some 30\<rparr>" example_props]
  by (simp add: example_props_def)

text \<open>
  C1. The task is a strict linear chain of exactly four phases: it starts at the account
  lookup, each phase has one \<open>next\<close> link, to the following phase, the last has none and
  is the only end state; so following the links from the start meets the four phases in
  the order lookup, hub regions, aggregation, accounts, and then ends, however long one
  follows (no loop, no other top-level phase). Every run with enough fuel returns, and the
  top-level states it enters are an initial part of that list (a phase that fails ends the
  run) and the whole list when the run succeeds.
\<close>

theorem linear_chain:
  assumes "CDKBootstrapTask props = Inr f" and "6 \<le> n"
  shows "frag_startState f = getAccountInfoTask_id \<and>
         frag_endStates f = [createBootstrapInAccount_id] \<and>
         (\<forall>k. 4 \<le> k \<longrightarrow>
            follow (states f) k (frag_startState f) =
              [getAccountInfoTask_id, createRootBootstrapInRegion_id, getBootstrapOutput_id,
               createBootstrapInAccount_id]) \<and>
         prefix (entered_top (fst (run env f n doc)))
           [getAccountInfoTask_id, createRootBootstrapInRegion_id, getBootstrapOutput_id,
            createBootstrapInAccount_id] \<and>
         snd (run env f n doc) \<noteq> Inl OutOfFuel \<and>
         (\<forall>out. snd (run env f n doc) = Inr out \<longrightarrow>
            entered_top (fst (run env f n doc)) =
              [getAccountInfoTask_id, createRootBootstrapInRegion_id, getBootstrapOutput_id,
               createBootstrapInAccount_id])"
proof -
  let ?chain = "[getAccountInfoTask_id, createRootBootstrapInRegion_id, getBootstrapOutput_id,
                 createBootstrapInAccount_id]"
  have walk: "follow (states f) k (frag_startState f) = ?chain" if "4 \<le> k" for k
  proof -
    from that obtain m where "k = 4 + m" using le_Suc_ex by blast
    then have "k = Suc (Suc (Suc (Suc m)))" by simp
    then show ?thesis by (simp only: built(8) [OF assms(1)] follow_built [OF assms(1)])
  qed
  from assms(2) have "4 \<le> n" by simp
  then have n: "follow (states f) n getAccountInfoTask_id = ?chain"
    using walk [of n] by (simp add: built(8) [OF assms(1)])
  have top: "prefix (entered_top (fst (run env f n doc))) ?chain \<and>
      (\<forall>out. snd (run env f n doc) = Inr out \<longrightarrow> entered_top (fst (run env f n doc)) = ?chain)"
    using top_follows [of env "states f" n "JObj []" getAccountInfoTask_id doc]
    by (simp add: run_def built(8) [OF assms(1)] n)
  show ?thesis
    using walk top run_fuel(2) [OF assms] built(8,9) [OF assms(1)] by blast
qed

theorem linear_chain_witness:
  "\<exists>f out. CDKBootstrapTask example_props = Inr f \<and> (6::nat) \<le> 6 \<and>
     snd (run example_env f 6 example_doc) = Inr out \<and>
     entered_top (fst (run example_env f 6 example_doc)) =
       [getAccountInfoTask_id, createRootBootstrapInRegion_id, getBootstrapOutput_id,
        createBootstrapInAccount_id]"
proof -
  have ev: "case CDKBootstrapTask example_props of
              Inl _ \<Rightarrow> False
            | Inr f \<Rightarrow> \<not> isl (snd (run example_env f 6 example_doc))"
    by code_simp
  obtain f where f: "CDKBootstrapTask example_props = Inr f"
    using constructed by blast
  from ev f have "\<not> isl (snd (run example_env f 6 example_doc))" by simp
  then obtain out where out: "snd (run example_env f 6 example_doc) = Inr out"
    by (cases "snd (run example_env f 6 example_doc)") auto
  from linear_chain [OF f, of 6 example_env example_doc] out f show ?thesis by simp
qed

text \<open>
  C4. If any call to a collaborator fails during a run (in particular any single leaf
  account/region deployment, whatever the other deployments of the fan-out do), the run as
  a whole ends in a failure: no phase catches or suppresses the error.
\<close>

theorem child_failure_fails_run:
  assumes "CDKBootstrapTask props = Inr f" and "6 \<le> n"
    and "Inl d \<in> set (outcomes (fst (run env f n doc))) \<or>
         (\<exists>p x. (p, x, Inl d) \<in>
            set (executed (stateMachineName (bootstrapStateMachine props))
                   (fst (run env f n doc))))"
  shows "\<exists>e. snd (run env f n doc) = Inl e \<and> e \<noteq> OutOfFuel"
proof -
  from assms(3) have "Inl d \<in> set (outcomes (fst (run env f n doc)))"
    by (auto dest: executed_outcomes)
  then have "isl (snd (run env f n doc))"
    using failure_propagates(2) [of d env "states f" n "[]" "JObj []" "frag_startState f" doc]
    by (simp add: run_def)
  then obtain e where "snd (run env f n doc) = Inl e"
    by (cases "snd (run env f n doc)") auto
  with run_fuel(2) [OF assms(1,2), of env doc] show ?thesis by auto
qed

theorem child_failure_fails_run_witness:
  "\<exists>f. CDKBootstrapTask example_props = Inr f \<and> (6::nat) \<le> 6 \<and>
     filter isl (outcomes (fst (run failing_env f 6 example_doc))) = [Inl ''denied''] \<and>
     length (outcomes (fst (run failing_env f 6 example_doc))) = 8 \<and>
     (\<exists>e. snd (run failing_env f 6 example_doc) = Inl e \<and> e \<noteq> OutOfFuel)"
proof -
  have ev: "case CDKBootstrapTask example_props of
              Inl _ \<Rightarrow> False
            | Inr f \<Rightarrow>
                filter isl (outcomes (fst (run failing_env f 6 example_doc))) = [Inl ''denied''] \<and>
                length (outcomes (fst (run failing_env f 6 example_doc))) = 8"
    by code_simp
  obtain f where f: "CDKBootstrapTask example_props = Inr f"
    using constructed by blast
  from ev f have one: "filter isl (outcomes (fst (run failing_env f 6 example_doc))) = [Inl ''denied'']"
    and all: "length (outcomes (fst (run failing_env f 6 example_doc))) = 8"
    by simp_all
  from one have "Inl ''denied'' \<in> set (filter isl (outcomes (fst (run failing_env f 6 example_doc))))"
    by simp
  then have bad: "Inl ''denied'' \<in> set (outcomes (fst (run failing_env f 6 example_doc)))"
    by simp
  from child_failure_fails_run [OF f, of 6 "''denied''" failing_env example_doc] bad
  have "\<exists>e. snd (run failing_env f 6 example_doc) = Inl e \<and> e \<noteq> OutOfFuel" by simp
  with f one all show ?thesis by simp
qed

text \<open>
  C5, as amended. The document is not append-only: the aggregation phase overwrites the
  field \<open>bootstrap\<close> that the hub phase wrote. What holds is that a phase changes nothing
  but the field at its result path: the lookup writes \<open>operationsAccount\<close>, the hub phase
  writes \<open>bootstrap\<close> (an array), the aggregation reads that array as \<open>stackOutputs\<close> and
  writes its own result over \<open>bootstrap\<close>, the account phase writes nothing; every other
  field keeps its value, so no field is ever deleted.
\<close>

theorem phases_write_result_field_only:
  assumes "CDKBootstrapTask props = Inr f"
  shows "(snd (run_phase env f n getAccountInfoTask_id d) = Inr d' \<longrightarrow>
            field ''operationsAccount'' d' \<noteq> None \<and>
            (\<forall>k. k \<noteq> ''operationsAccount'' \<longrightarrow> field k d' = field k d)) \<and>
         (snd (run_phase env f (Suc n) createRootBootstrapInRegion_id d) = Inr d' \<longrightarrow>
            (\<exists>outs. field ''bootstrap'' d' = Some (JArr outs)) \<and>
            (\<forall>k. k \<noteq> ''bootstrap'' \<longrightarrow> field k d' = field k d)) \<and>
         (snd (run_phase env f n getBootstrapOutput_id d) = Inr d' \<longrightarrow>
            (\<exists>payload v. field ''stackOutputs'' payload = field ''bootstrap'' d \<and>
               field ''bootstrap'' d \<noteq> None \<and>
               invoke env ''index.getBootstrapOutput'' payload = Inr v \<and>
               field ''bootstrap'' d' = Some v) \<and>
            (\<forall>k. k \<noteq> ''bootstrap'' \<longrightarrow> field k d' = field k d)) \<and>
         (snd (run_phase env f (Suc (Suc n)) createBootstrapInAccount_id d) = Inr d' \<longrightarrow> d' = d)"
proof (intro conjI impI)
  assume "snd (run_phase env f n getAccountInfoTask_id d) = Inr d'"
  then obtain v where "apply_result_path (Some ''$.operationsAccount'') d v = Some d'"
    unfolding phase_getAccountInfo [OF assms] by (blast dest: task_result)
  then have w: "(case d of JObj kvs \<Rightarrow> Some (JObj (put ''operationsAccount'' v kvs)) | _ \<Rightarrow> None) = Some d'"
    by (simp only: result_path_operationsAccount)
  from written_field [OF w] show "field ''operationsAccount'' d' \<noteq> None"
    and "\<forall>k. k \<noteq> ''operationsAccount'' \<longrightarrow> field k d' = field k d" by simp_all
next
  assume "snd (run_phase env f (Suc n) createRootBootstrapInRegion_id d) = Inr d'"
  then obtain outs where "apply_result_path (Some ''$.bootstrap'') d (JArr outs) = Some d'"
    unfolding phase_createRootBootstrapInRegion [OF assms] by (blast dest: map_result)
  then have w: "(case d of JObj kvs \<Rightarrow> Some (JObj (put ''bootstrap'' (JArr outs) kvs)) | _ \<Rightarrow> None) = Some d'"
    by (simp only: result_path_bootstrap)
  from written_field [OF w] show "\<exists>outs. field ''bootstrap'' d' = Some (JArr outs)"
    and "\<forall>k. k \<noteq> ''bootstrap'' \<longrightarrow> field k d' = field k d" by simp_all
next
  assume "snd (run_phase env f n getBootstrapOutput_id d) = Inr d'"
  then obtain payload v
    where p: "resolve (JObj []) d getBootstrapOutput_functionPayload = Some payload"
      and i: "invoke env ''index.getBootstrapOutput'' payload = Inr v"
      and "apply_result_path (Some ''$.bootstrap'') d v = Some d'"
    unfolding phase_getBootstrapOutput [OF assms] by (fastforce dest: invoke_result)
  then have w: "(case d of JObj kvs \<Rightarrow> Some (JObj (put ''bootstrap'' v kvs)) | _ \<Rightarrow> None) = Some d'"
    by (simp only: result_path_bootstrap)
  from written_field [OF w] aggregation_payload [OF p] i
  show "\<exists>payload v. field ''stackOutputs'' payload = field ''bootstrap'' d \<and>
          field ''bootstrap'' d \<noteq> None \<and>
          invoke env ''index.getBootstrapOutput'' payload = Inr v \<and>
          field ''bootstrap'' d' = Some v"
    and "\<forall>k. k \<noteq> ''bootstrap'' \<longrightarrow> field k d' = field k d" by auto
next
  assume "snd (run_phase env f (Suc (Suc n)) createBootstrapInAccount_id d) = Inr d'"
  then obtain outs where "apply_result_path (Some ''DISCARD'') d (JArr outs) = Some d'"
    unfolding phase_createBootstrapInAccount [OF assms] by (blast dest: map_result)
  then show "d' = d" by (simp add: result_path_discard)
qed

theorem phases_write_result_field_only_witness:
  "\<exists>f. CDKBootstrapTask example_props = Inr f \<and>
     snd (run_phase example_env f 0 getAccountInfoTask_id example_doc) = Inr after_lookup \<and>
     field ''operationsAccount'' after_lookup \<noteq> None \<and>
     field ''regions'' after_lookup = field ''regions'' example_doc \<and>
     snd (run_phase example_env f (Suc 0) createRootBootstrapInRegion_id after_lookup) =
       Inr after_hub \<and>
     field ''operationsAccount'' after_hub = field ''operationsAccount'' after_lookup \<and>
     snd (run_phase example_env f 0 getBootstrapOutput_id after_hub) = Inr after_aggregation \<and>
     field ''regions'' after_aggregation = field ''regions'' after_hub \<and>
     snd (run_phase example_env f (Suc (Suc 0)) createBootstrapInAccount_id after_aggregation) =
       Inr after_aggregation"
proof -
  obtain f where f: "CDKBootstrapTask example_props = Inr f"
    using constructed by blast
  note eq = example_fragment [OF f]
  have p1: "snd (run_phase example_env f 0 getAccountInfoTask_id example_doc) = Inr after_lookup"
    using example_phase1 by (simp only: eq)
  have p2: "snd (run_phase example_env f (Suc 0) createRootBootstrapInRegion_id after_lookup) =
      Inr after_hub"
    using example_phase2 by (simp only: eq)
  have p3: "snd (run_phase example_env f 0 getBootstrapOutput_id after_hub) = Inr after_aggregation"
    using example_phase3 by (simp only: eq)
  have p4: "snd (run_phase example_env f (Suc (Suc 0)) createBootstrapInAccount_id
      after_aggregation) = Inr after_aggregation"
    using example_phase4 by (simp only: eq)
  have c1: "field ''operationsAccount'' after_lookup \<noteq> None \<and>
      field ''regions'' after_lookup = field ''regions'' example_doc"
    using phases_write_result_field_only [OF f, of example_env 0 example_doc after_lookup] p1
    by simp
  have c2: "field ''operationsAccount'' after_hub = field ''operationsAccount'' after_lookup"
    using phases_write_result_field_only [OF f, of example_env 0 after_lookup after_hub] p2
    by simp
  have c3: "field ''regions'' after_aggregation = field ''regions'' after_hub"
    using phases_write_result_field_only [OF f, of example_env 0 after_hub after_aggregation] p3
    by simp
  from f p1 p2 p3 p4 c1 c2 c3 show ?thesis by (intro exI [of _ f]) simp
qed

text \<open>
  C5, as stated, fails on the example: the document that enters the aggregation holds the
  raw per-region array in \<open>bootstrap\<close>, the document that leaves it holds the aggregate.
\<close>

theorem bootstrap_overwritten:
  "snd (run_phase example_env example_task 0 getBootstrapOutput_id after_hub) =
     Inr after_aggregation \<and>
   field ''bootstrap'' after_hub = Some hub_outputs \<and>
   field ''bootstrap'' after_aggregation = Some aggregated \<and>
   hub_outputs \<noteq> aggregated"
  using example_phase3
  by (simp add: after_hub_def after_aggregation_def example_fields_def hub_outputs_def
      aggregated_def)

text \<open>
  C10. Every account stack deployment of the account phase is the one of some account
  \<open>i\<close> and some per-region output item \<open>j\<close>; its stack parameters \<open>BucketName\<close> and
  \<open>BucketDomainName\<close> are both the \<open>bucketDomain\<close> of that item, its region is the
  \<open>region\<close> of that item, and its account is that account.
\<close>

theorem leaf_stack_parameters:
  assumes "CDKBootstrapTask props = Inr f"
    and "(p, x, r) \<in> set (executed (stateMachineName (bootstrapStateMachine props))
           (fst (run_phase env f (Suc (Suc n)) createBootstrapInAccount_id d)))"
  shows "\<exists>as os i j b rg.
           get_path [''bootstrap'', ''accounts''] d = Some (JArr as) \<and>
           get_path [''bootstrap'', ''outputs''] d = Some (JArr os) \<and>
           p = [i, j] \<and> i < length as \<and> j < length os \<and>
           field ''bucketDomain'' (os ! j) = Some b \<and>
           field ''region'' (os ! j) = Some rg \<and>
           get_path [''stackParameters'', ''BucketName''] x = Some b \<and>
           get_path [''stackParameters'', ''BucketDomainName''] x = Some b \<and>
           field ''region'' x = Some rg \<and>
           field ''accountId'' x = Some (as ! i) \<and>
           r = runSync env (stateMachineName (bootstrapStateMachine props)) x"
proof -
  from assms obtain as where as: "get_path [''bootstrap'', ''accounts''] d = Some (JArr as)"
    using executed_not_accounts [OF assms(1), of d _ env n] by fastforce
  from assms obtain os where os: "get_path [''bootstrap'', ''outputs''] d = Some (JArr os)"
    using executed_not_outputs [OF assms(1), of d _ env n] by fastforce
  from assms(2) obtain i a j item b rg
    where ia: "(i, a) \<in> set (enumerate 0 as)" and jo: "(j, item) \<in> set (enumerate 0 os)"
      and b: "field ''bucketDomain'' item = Some b" and rg: "field ''region'' item = Some rg"
      and p: "p = [i, j]" and x: "x = leaf_input props a b rg"
      and r: "r = runSync env (stateMachineName (bootstrapStateMachine props)) x"
    unfolding executed_accounts [OF assms(1) as os]
    by (auto split: option.splits) metis
  from ia jo have "i < length as" "a = as ! i" "j < length os" "item = os ! j"
    by (simp_all add: in_set_enumerate_eq)
  with as os b rg p x r show ?thesis
    by (simp add: leaf_input_def del: get_path.simps) (simp add: as os)
qed

theorem leaf_stack_parameters_witness:
  "\<exists>f as os i j b rg.
     CDKBootstrapTask example_props = Inr f \<and>
     ([1, 0], leaf_input example_props (JStr ''222'') (JStr ''b1'') (JStr ''us-east-1''),
      Inr (JObj [(''status'', JStr ''CREATE_COMPLETE'')])) \<in>
       set (executed (stateMachineName (bootstrapStateMachine example_props))
              (fst (run_phase example_env f (Suc (Suc 0)) createBootstrapInAccount_id
                      after_aggregation))) \<and>
     get_path [''bootstrap'', ''accounts''] after_aggregation = Some (JArr as) \<and>
     get_path [''bootstrap'', ''outputs''] after_aggregation = Some (JArr os) \<and>
     [1, 0] = [i, j] \<and> i < length as \<and> j < length os \<and>
     field ''bucketDomain'' (os ! j) = Some b \<and>
     field ''region'' (os ! j) = Some rg \<and>
     get_path [''stackParameters'', ''BucketName'']
       (leaf_input example_props (JStr ''222'') (JStr ''b1'') (JStr ''us-east-1'')) = Some b \<and>
     get_path [''stackParameters'', ''BucketDomainName'']
       (leaf_input example_props (JStr ''222'') (JStr ''b1'') (JStr ''us-east-1'')) = Some b \<and>
     field ''region''
       (leaf_input example_props (JStr ''222'') (JStr ''b1'') (JStr ''us-east-1'')) = Some rg \<and>
     b = JStr ''b1'' \<and> rg = JStr ''us-east-1''"
proof -
  obtain f where f: "CDKBootstrapTask example_props = Inr f"
    using constructed by blast
  have mem: "([1, 0], leaf_input example_props (JStr ''222'') (JStr ''b1'') (JStr ''us-east-1''),
      Inr (JObj [(''status'', JStr ''CREATE_COMPLETE'')])) \<in>
    set (executed (stateMachineName (bootstrapStateMachine example_props))
           (fst (run_phase example_env f (Suc (Suc 0)) createBootstrapInAccount_id
                   after_aggregation)))"
    using example_leaf by (simp only: example_fragment [OF f])
  from leaf_stack_parameters [OF f mem] obtain as os i j b rg
    where *: "get_path [''bootstrap'', ''accounts''] after_aggregation = Some (JArr as)"
      "get_path [''bootstrap'', ''outputs''] after_aggregation = Some (JArr os)"
      "[1, 0] = [i, j]" "i < length as" "j < length os"
      "field ''bucketDomain'' (os ! j) = Some b" "field ''region'' (os ! j) = Some rg"
      "get_path [''stackParameters'', ''BucketName'']
         (leaf_input example_props (JStr ''222'') (JStr ''b1'') (JStr ''us-east-1'')) = Some b"
      "get_path [''stackParameters'', ''BucketDomainName'']
         (leaf_input example_props (JStr ''222'') (JStr ''b1'') (JStr ''us-east-1'')) = Some b"
      "field ''region''
         (leaf_input example_props (JStr ''222'') (JStr ''b1'') (JStr ''us-east-1'')) = Some rg"
    by blast
  from *(8) have b: "b = JStr ''b1''" by (simp add: leaf_input_def)
  from *(10) have rg: "rg = JStr ''us-east-1''" by (simp add: leaf_input_def)
  from f mem * b rg show ?thesis by blast
qed





text \<open>
  C8. Whatever the schedule of the hub fan-out, and so whatever the order in which the
  deployments land, a successful finish yields a document whose \<open>bootstrap\<close> field is an
  array with one result per region, the i-th being that of the i-th region: its \<open>region\<close>
  is the i-th item of \<open>regions\<close> and its \<open>opsBootstrapOutput\<close> is what the hub sub-workflow
  returned for that region. It is the output of the sequential run of the phase. The
  executor is the one of section 4.3 of the specification.
\<close>

theorem aggregate_keeps_order:
  assumes "CDKBootstrapTask props = Inr f"
    and "field ''regions'' d = Some (JArr rs)"
    and "get_path [''operationsAccount'', ''id''] d = Some a"
    and "get_path [''operationsAccount'', ''ou''] d = Some ou"
    and "fanout (states f) (Suc (Suc n)) ctx createRootBootstrapInRegion_id d = Some job"
    and "steps (leaf_result env (states f) (Suc m)) (start job) ls (Finished (Inr out))"
  shows "\<exists>outs.
           field ''bootstrap'' out = Some (JArr outs) \<and> length outs = length rs \<and>
           (\<forall>i<length rs.
              field ''region'' (outs ! i) = Some (rs ! i) \<and>
              (\<exists>v. runSync env (stateMachineName (bootstrapMasterStateMachine props))
                      (hub_input props a ou (rs ! i)) = Inr v \<and>
                    field ''opsBootstrapOutput'' (outs ! i) = Some v)) \<and>
           snd (run_phase env f (Suc m) createRootBootstrapInRegion_id d) = Inr out"
proof -
  let ?res = "\<lambda>(i :: nat, r).
      case runSync env (stateMachineName (bootstrapMasterStateMachine props))
             (hub_input props a ou r) of
        Inl e \<Rightarrow> Inl (ExecutionError e)
      | Inr v \<Rightarrow> Inr (hub_output props a ou r v)"
  from assms(5) have job: "job = Fan (Some 20)
      (gather createRootBootstrapInRegion_id (Some ''$.bootstrap'') d)
      (map (\<lambda>(i, r). Leaf (bootstrapOpsTask_id, item_context i r, hub_item props a ou r))
         (enumerate 0 rs))"
    unfolding fanout_hub [OF assms(1-4)] by simp
  from steps_finished_eval [OF assms(6)]
  have val: "gather createRootBootstrapInRegion_id (Some ''$.bootstrap'') d
      (map ?res (enumerate 0 rs)) = Inr out"
    unfolding job hub_job_value [OF assms(1)] by simp
  then have seq: "snd (run_phase env f (Suc m) createRootBootstrapInRegion_id d) = Inr out"
    by (simp only: hub_phase_result [OF assms(1-4)])
  from gather_Inr [OF val] obtain outs
    where outs: "map ?res (enumerate 0 rs) = map Inr outs"
      and w: "apply_result_path (Some ''$.bootstrap'') d (JArr outs) = Some out"
    by blast
  from outs have len: "length outs = length rs"
    using length_map [of ?res "enumerate 0 rs"] by simp
  from w have "(case d of JObj kvs \<Rightarrow> Some (JObj (put ''bootstrap'' (JArr outs) kvs)) | _ \<Rightarrow> None) = Some out"
    by (simp only: result_path_bootstrap)
  then have written: "field ''bootstrap'' out = Some (JArr outs)"
    by (rule written_field(1))
  have item: "field ''region'' (outs ! i) = Some (rs ! i) \<and>
      (\<exists>v. runSync env (stateMachineName (bootstrapMasterStateMachine props))
              (hub_input props a ou (rs ! i)) = Inr v \<and>
            field ''opsBootstrapOutput'' (outs ! i) = Some v)"
    if i: "i < length rs" for i
  proof -
    from outs have "map ?res (enumerate 0 rs) ! i = map Inr outs ! i" by simp
    with i len have "?res (i, rs ! i) = Inr (outs ! i)"
      by (simp add: nth_enumerate_eq)
    then obtain v
      where v: "runSync env (stateMachineName (bootstrapMasterStateMachine props))
                  (hub_input props a ou (rs ! i)) = Inr v"
        and o: "outs ! i = hub_output props a ou (rs ! i) v"
      by (auto split: sum.splits)
    from o have "field ''region'' (outs ! i) = Some (rs ! i)"
      and "field ''opsBootstrapOutput'' (outs ! i) = Some v"
      by (simp_all add: hub_output_def)
    with v show ?thesis by blast
  qed
  from written len item seq show ?thesis by blast
qed

theorem aggregate_keeps_order_witness:
  "\<exists>f job ls outs.
     CDKBootstrapTask example_props = Inr f \<and>
     field ''regions'' after_lookup = Some (JArr [JStr ''us-east-1'', JStr ''us-west-2'']) \<and>
     fanout (states f) (Suc (Suc 0)) (JObj []) createRootBootstrapInRegion_id after_lookup =
       Some job \<and>
     steps (leaf_result example_env (states f) (Suc 0)) (start job) ls
       (Finished (Inr after_hub)) \<and>
     field ''bootstrap'' after_hub = Some (JArr outs) \<and> length outs = 2 \<and>
     field ''region'' (outs ! 0) = Some (JStr ''us-east-1'') \<and>
     field ''region'' (outs ! 1) = Some (JStr ''us-west-2'') \<and>
     snd (run_phase example_env f (Suc 0) createRootBootstrapInRegion_id after_lookup) =
       Inr after_hub"
proof -
  obtain f where f: "CDKBootstrapTask example_props = Inr f"
    using constructed by blast
  from example_hub_schedule [OF f] obtain job ls
    where job: "fanout (states f) (Suc (Suc 0)) (JObj []) createRootBootstrapInRegion_id
        after_lookup = Some job"
      and st: "steps (leaf_result example_env (states f) (Suc 0)) (start job) ls
        (Finished (Inr after_hub))"
    by blast
  from aggregate_keeps_order [OF f example_lookup_fields job st] obtain outs
    where w: "field ''bootstrap'' after_hub = Some (JArr outs)"
      and len: "length outs = length [JStr ''us-east-1'', JStr ''us-west-2'']"
      and item: "\<forall>i<length [JStr ''us-east-1'', JStr ''us-west-2''].
          field ''region'' (outs ! i) = Some ([JStr ''us-east-1'', JStr ''us-west-2''] ! i) \<and>
          (\<exists>v. runSync example_env (stateMachineName (bootstrapMasterStateMachine example_props))
                  (hub_input example_props (JStr ''999'') (JStr ''core'')
                     ([JStr ''us-east-1'', JStr ''us-west-2''] ! i)) = Inr v \<and>
                field ''opsBootstrapOutput'' (outs ! i) = Some v)"
      and seq: "snd (run_phase example_env f (Suc 0) createRootBootstrapInRegion_id
          after_lookup) = Inr after_hub"
    by (elim exE conjE)
  from len have len2: "length outs = 2" by simp
  from item [rule_format, of 0] have i0: "field ''region'' (outs ! 0) = Some (JStr ''us-east-1'')"
    by simp
  from item [rule_format, of 1] have i1: "field ''region'' (outs ! 1) = Some (JStr ''us-west-2'')"
    by simp
  from f example_lookup_fields(1) job st w len2 i0 i1 seq show ?thesis
    by (intro exI conjI) assumption+
qed

text \<open>
  C7. The account phase, the region Map in it and the deployment task each return their
  input unchanged when they succeed, whatever the deployments returned; a successful account
  phase has seen every deployment succeed; a schedule of its fan-out that finishes
  successfully has landed every leaf body and yields the input document; and the output of
  a successful run of the whole task is the output of the aggregation phase, with nothing
  added by the account phase. The executor is the one of section 4.3 of the specification.
\<close>

theorem results_discarded:
  assumes "CDKBootstrapTask props = Inr f"
  shows "(snd (run_phase env f (Suc (Suc n)) createBootstrapInAccount_id d) = Inr d' \<longrightarrow>
            d' = d \<and>
            (\<forall>r\<in>set (outcomes (fst (run_phase env f (Suc (Suc n)) createBootstrapInAccount_id d))).
               \<not> isl r)) \<and>
         (snd (exec_chain env (states f) (Suc (Suc n)) p ctx createBootstrapInRegion_id x) = Inr x' \<longrightarrow>
            x' = x) \<and>
         (snd (exec_chain env (states f) (Suc n) q ctx' bootstrapTask_id y) = Inr y' \<longrightarrow> y' = y) \<and>
         (fanout (states f) (Suc (Suc (Suc n))) ctx createBootstrapInAccount_id d = Some job \<and>
          steps (leaf_result env (states f) (Suc k)) (start job) ls (Finished (Inr out)) \<longrightarrow>
            out = d \<and> count_kind Land ls = leaves job) \<and>
         (6 \<le> m \<and> snd (run env f m doc) = Inr out' \<longrightarrow>
            (\<exists>d2. snd (run_phase env f 0 getBootstrapOutput_id d2) = Inr out'))"
proof (intro conjI impI)
  assume ok: "snd (run_phase env f (Suc (Suc n)) createBootstrapInAccount_id d) = Inr d'"
  then show "d' = d"
    unfolding phase_createBootstrapInAccount [OF assms] by (rule discard_map)
  show "\<forall>r\<in>set (outcomes (fst (run_phase env f (Suc (Suc n)) createBootstrapInAccount_id d))).
      \<not> isl r"
  proof
    fix r assume r: "r \<in> set (outcomes (fst (run_phase env f (Suc (Suc n))
      createBootstrapInAccount_id d)))"
    show "\<not> isl r"
    proof
      assume "isl r"
      then obtain e where "r = Inl e" by (cases r) auto
      with r have "isl (snd (run_phase env f (Suc (Suc n)) createBootstrapInAccount_id d))"
        by (auto dest: phase_failure)
      with ok show False by simp
    qed
  qed
next
  assume "snd (exec_chain env (states f) (Suc (Suc n)) p ctx createBootstrapInRegion_id x) = Inr x'"
  then show "x' = x"
    unfolding exec_createBootstrapInRegion [OF assms] then_next_last by (rule discard_map)
next
  assume "snd (exec_chain env (states f) (Suc n) q ctx' bootstrapTask_id y) = Inr y'"
  then show "y' = y"
    unfolding exec_bootstrapTask [OF assms] then_next_last by (rule discard_task)
next
  assume a: "fanout (states f) (Suc (Suc (Suc n))) ctx createBootstrapInAccount_id d = Some job \<and>
    steps (leaf_result env (states f) (Suc k)) (start job) ls (Finished (Inr out))"
  then obtain js where job: "job = Fan (Some 10)
      (gather createBootstrapInAccount_id (Some ''DISCARD'') d) js"
    using fanout_accounts_shape [OF assms] by blast
  from a have st: "steps (leaf_result env (states f) (Suc k))
      (start (Fan (Some 10) (gather createBootstrapInAccount_id (Some ''DISCARD'') d) js)) ls
      (Finished (Inr out))"
    by (simp only: job)
  from schedule_counts(4) [OF st]
  have "gather createBootstrapInAccount_id (Some ''DISCARD'') d
      (map (eval (leaf_result env (states f) (Suc k))) js) = Inr out"
    by simp
  from gather_Inr [OF this] show "out = d" by (auto simp add: result_path_discard)
  from schedule_counts(2) [OF st] show "count_kind Land ls = leaves job" by (simp only: job)
next
  assume "6 \<le> m \<and> snd (run env f m doc) = Inr out'"
  then obtain d2 d3
    where p3: "snd (run_phase env f 0 getBootstrapOutput_id d2) = Inr d3"
      and p4: "snd (run_phase env f (Suc (Suc 0)) createBootstrapInAccount_id d3) = Inr out'"
    using run_success [OF assms, of m env doc out'] by blast
  from p4 have "out' = d3"
    unfolding phase_createBootstrapInAccount [OF assms] by (rule discard_map)
  with p3 show "\<exists>d2. snd (run_phase env f 0 getBootstrapOutput_id d2) = Inr out'" by blast
qed

theorem results_discarded_witness:
  "\<exists>f job ls d2.
     CDKBootstrapTask example_props = Inr f \<and>
     snd (run_phase example_env f (Suc (Suc 0)) createBootstrapInAccount_id after_aggregation) =
       Inr after_aggregation \<and>
     length (outcomes (fst (run_phase example_env f (Suc (Suc 0)) createBootstrapInAccount_id
       after_aggregation))) = 4 \<and>
     filter isl (outcomes (fst (run_phase example_env f (Suc (Suc 0))
       createBootstrapInAccount_id after_aggregation))) = [] \<and>
     snd (exec_chain example_env (states f) (Suc (Suc 0)) [0] (JObj [])
            createBootstrapInRegion_id
            (account_item example_props (JStr ''111'')
               (JArr [JObj [(''region'', JStr ''us-east-1''), (''bucketDomain'', JStr ''b1'')]]))) =
       Inr (account_item example_props (JStr ''111'')
              (JArr [JObj [(''region'', JStr ''us-east-1''), (''bucketDomain'', JStr ''b1'')]])) \<and>
     snd (exec_chain example_env (states f) (Suc 0) [0, 0] (JObj []) bootstrapTask_id
            (region_item example_props (JStr ''111'')
               (JObj [(''region'', JStr ''us-east-1''), (''bucketDomain'', JStr ''b1'')]))) =
       Inr (region_item example_props (JStr ''111'')
              (JObj [(''region'', JStr ''us-east-1''), (''bucketDomain'', JStr ''b1'')])) \<and>
     fanout (states f) (Suc (Suc (Suc 0))) (JObj []) createBootstrapInAccount_id
       after_aggregation = Some job \<and>
     steps (leaf_result example_env (states f) (Suc 0)) (start job) ls
       (Finished (Inr after_aggregation)) \<and>
     count_kind Land ls = leaves job \<and>
     (6::nat) \<le> 6 \<and>
     snd (run example_env f 6 example_doc) = Inr after_aggregation \<and>
     snd (run_phase example_env f 0 getBootstrapOutput_id d2) = Inr after_aggregation"
proof -
  obtain f where f: "CDKBootstrapTask example_props = Inr f"
    using constructed by blast
  note eq = example_fragment [OF f]
  let ?x = "account_item example_props (JStr ''111'')
      (JArr [JObj [(''region'', JStr ''us-east-1''), (''bucketDomain'', JStr ''b1'')]])"
  let ?y = "region_item example_props (JStr ''111'')
      (JObj [(''region'', JStr ''us-east-1''), (''bucketDomain'', JStr ''b1'')])"
  have p4: "snd (run_phase example_env f (Suc (Suc 0)) createBootstrapInAccount_id
      after_aggregation) = Inr after_aggregation"
    using example_phase4 by (simp only: eq)
  have outs: "outcomes (fst (run_phase example_env f (Suc (Suc 0)) createBootstrapInAccount_id
      after_aggregation)) =
      [Inr (JObj [(''status'', JStr ''CREATE_COMPLETE'')]),
       Inr (JObj [(''status'', JStr ''CREATE_COMPLETE'')]),
       Inr (JObj [(''status'', JStr ''CREATE_COMPLETE'')]),
       Inr (JObj [(''status'', JStr ''CREATE_COMPLETE'')])]"
    using example_outcomes by (simp only: eq)
  have px: "snd (exec_chain example_env (states f) (Suc (Suc 0)) [0] (JObj [])
      createBootstrapInRegion_id ?x) = Inr ?x"
    using example_region_map by (simp only: eq)
  have py: "snd (exec_chain example_env (states f) (Suc 0) [0, 0] (JObj []) bootstrapTask_id ?y) =
      Inr ?y"
    using example_deployment by (simp only: eq)
  have whole: "snd (run example_env f 6 example_doc) = Inr after_aggregation"
    using example_run by (simp only: eq)
  from example_account_schedule [OF f] obtain job ls
    where job: "fanout (states f) (Suc (Suc (Suc 0))) (JObj []) createBootstrapInAccount_id
        after_aggregation = Some job"
      and st: "steps (leaf_result example_env (states f) (Suc 0)) (start job) ls
        (Finished (Inr after_aggregation))"
    by blast
  note inst = results_discarded [OF f, of example_env 0 after_aggregation after_aggregation
      "[0]" "JObj []" ?x ?x "[0, 0]" "JObj []" ?y ?y job 0 ls after_aggregation 6 example_doc
      after_aggregation]
  from inst p4 have quiet: "\<forall>r\<in>set (outcomes (fst (run_phase example_env f (Suc (Suc 0))
      createBootstrapInAccount_id after_aggregation))). \<not> isl r"
    by blast
  then have none: "filter isl (outcomes (fst (run_phase example_env f (Suc (Suc 0))
      createBootstrapInAccount_id after_aggregation))) = []"
    by (simp only: filter_empty_conv)
  from outs have four: "length (outcomes (fst (run_phase example_env f (Suc (Suc 0))
      createBootstrapInAccount_id after_aggregation))) = 4"
    by simp
  from inst job st have lands: "count_kind Land ls = leaves job" by blast
  from inst whole obtain d2
    where d2: "snd (run_phase example_env f 0 getBootstrapOutput_id d2) = Inr after_aggregation"
    by auto
  have six: "(6::nat) \<le> 6" by simp
  from f p4 four none px py job st lands six whole d2 show ?thesis
    by (intro exI conjI) assumption+
qed

text \<open>
  C6. In every run, an event of the account phase (an entry into or an exit from the account
  Map, the region Map or the deployment task, or a run of the account sub-workflow) comes
  after the successful call of the aggregation function and after the exit from the
  aggregation phase. What follows that exit is the run of the account phase on a document
  whose \<open>bootstrap\<close> field is the aggregation's result, so that \<open>bootstrap.accounts\<close> and
  \<open>bootstrap.outputs\<close>, which the Maps iterate over, are the fields of that result.
\<close>

theorem phase_barrier:
  assumes "CDKBootstrapTask props = Inr f" and "6 \<le> n"
    and "i < length (fst (run env f n doc))"
    and "account_phase_event props (fst (run env f n doc) ! i)"
  shows "\<exists>j payload v d3.
           Suc j < i \<and>
           fst (run env f n doc) ! j = Invoked [] ''index.getBootstrapOutput'' payload (Inr v) \<and>
           fst (run env f n doc) ! Suc j = Exit [] getBootstrapOutput_id True \<and>
           field ''bootstrap'' d3 = Some v \<and>
           get_path [''bootstrap'', ''accounts''] d3 = field ''accounts'' v \<and>
           get_path [''bootstrap'', ''outputs''] d3 = field ''outputs'' v \<and>
           drop (Suc (Suc j)) (fst (run env f n doc)) =
             fst (exec_chain env (states f) (Suc (Suc (Suc 0))) [] (JObj [])
                    createBootstrapInAccount_id d3)"
proof -
  from assms(3,4) have "\<not> (\<forall>e\<in>set (fst (run env f n doc)). \<not> account_phase_event props e)"
    using nth_mem by blast
  with run_trace [OF assms(1,2), of env doc] obtain pre payload v d3
    where tr: "fst (run env f n doc) =
        pre @ [Invoked [] ''index.getBootstrapOutput'' payload (Inr v),
               Exit [] getBootstrapOutput_id True] @
        fst (exec_chain env (states f) (Suc (Suc (Suc 0))) [] (JObj [])
               createBootstrapInAccount_id d3)"
      and pre: "\<forall>e\<in>set pre. \<not> account_phase_event props e"
      and fld: "field ''bootstrap'' d3 = Some v"
    by blast
  have after: "Suc (length pre) < i"
  proof (rule ccontr)
    assume "\<not> Suc (length pre) < i"
    then consider "i < length pre" | "i = length pre" | "i = Suc (length pre)" by linarith
    then show False
    proof cases
      case 1
      with assms(4) pre show False by (simp add: tr nth_append)
    next
      case 2
      with assms(4) show False by (simp add: tr nth_append)
    next
      case 3
      with assms(4) show False by (simp add: tr nth_append ids_neq)
    qed
  qed
  have "fst (run env f n doc) ! length pre =
      Invoked [] ''index.getBootstrapOutput'' payload (Inr v)"
    and "fst (run env f n doc) ! Suc (length pre) = Exit [] getBootstrapOutput_id True"
    and "drop (Suc (Suc (length pre))) (fst (run env f n doc)) =
      fst (exec_chain env (states f) (Suc (Suc (Suc 0))) [] (JObj [])
             createBootstrapInAccount_id d3)"
    by (simp_all add: tr nth_append)
  moreover from fld have "get_path [''bootstrap'', ''accounts''] d3 = field ''accounts'' v"
    and "get_path [''bootstrap'', ''outputs''] d3 = field ''outputs'' v"
    by (simp_all split: option.splits)
  ultimately show ?thesis using after fld by blast
qed

theorem phase_barrier_witness:
  "\<exists>f j payload v d3.
     CDKBootstrapTask example_props = Inr f \<and> (6::nat) \<le> 6 \<and>
     14 < length (fst (run example_env f 6 example_doc)) \<and>
     fst (run example_env f 6 example_doc) ! 14 = Enter [] createBootstrapInAccount_id \<and>
     account_phase_event example_props (fst (run example_env f 6 example_doc) ! 14) \<and>
     Suc j < 14 \<and>
     fst (run example_env f 6 example_doc) ! j =
       Invoked [] ''index.getBootstrapOutput'' payload (Inr v) \<and>
     fst (run example_env f 6 example_doc) ! Suc j = Exit [] getBootstrapOutput_id True \<and>
     field ''bootstrap'' d3 = Some v \<and>
     drop (Suc (Suc j)) (fst (run example_env f 6 example_doc)) =
       fst (exec_chain example_env (states f) (Suc (Suc (Suc 0))) [] (JObj [])
              createBootstrapInAccount_id d3)"
proof -
  obtain f where f: "CDKBootstrapTask example_props = Inr f"
    using constructed by blast
  have tr: "14 < length (fst (run example_env f 6 example_doc))"
    and ev: "fst (run example_env f 6 example_doc) ! 14 = Enter [] createBootstrapInAccount_id"
    using example_trace by (simp_all only: example_fragment [OF f])
  have acc: "account_phase_event example_props (fst (run example_env f 6 example_doc) ! 14)"
    by (simp only: ev account_phase_event.simps) simp
  have six: "(6::nat) \<le> 6" by simp
  from phase_barrier [OF f six tr acc] obtain j payload v d3
    where "Suc j < 14"
      and "fst (run example_env f 6 example_doc) ! j =
        Invoked [] ''index.getBootstrapOutput'' payload (Inr v)"
      and "fst (run example_env f 6 example_doc) ! Suc j = Exit [] getBootstrapOutput_id True"
      and "field ''bootstrap'' d3 = Some v"
      and "drop (Suc (Suc j)) (fst (run example_env f 6 example_doc)) =
        fst (exec_chain example_env (states f) (Suc (Suc (Suc 0))) [] (JObj [])
               createBootstrapInAccount_id d3)"
    by blast
  with f six tr ev acc show ?thesis by blast
qed

end
